theory Spec2Isabelle
  imports Complex_Main
begin

section \<open>Numbers and vectors\<close>

text \<open>
  JavaScript numbers are modelled as real numbers: rounding, NaN and the infinities of
  IEEE doubles are outside the model. Where the source divides by a quantity that can be
  zero, the model writes the case out instead of relying on division in HOL.

  \<open>Vector3\<close>, \<open>Matrix4\<close>, \<open>Quaternion\<close> and \<open>QuadraticBezierCurve3\<close>
  belong to the three.js library the repository imports; the operations below follow the
  library's definitions. The source mutates vectors in place; no vector that is written
  is read through another name afterwards, so values are passed instead.
\<close>

datatype Vector3 = Vector3 (vx: real) (vy: real) (vz: real)

definition MAX_VALUE :: real where
  "MAX_VALUE = (2 - 1 / 2 ^ 52) * 2 ^ 1023"

definition EPSILON :: real where
  "EPSILON = 1 / 2 ^ 52"

definition subVectors :: "Vector3 \<Rightarrow> Vector3 \<Rightarrow> Vector3" where
  "subVectors a b = Vector3 (vx a - vx b) (vy a - vy b) (vz a - vz b)"

definition addVectors :: "Vector3 \<Rightarrow> Vector3 \<Rightarrow> Vector3" where
  "addVectors a b = Vector3 (vx a + vx b) (vy a + vy b) (vz a + vz b)"

definition multiplyScalar :: "Vector3 \<Rightarrow> real \<Rightarrow> Vector3" where
  "multiplyScalar v s = Vector3 (vx v * s) (vy v * s) (vz v * s)"

definition negate :: "Vector3 \<Rightarrow> Vector3" where
  "negate v = Vector3 (- vx v) (- vy v) (- vz v)"

definition dot :: "Vector3 \<Rightarrow> Vector3 \<Rightarrow> real" where
  "dot a b = vx a * vx b + vy a * vy b + vz a * vz b"

definition crossVectors :: "Vector3 \<Rightarrow> Vector3 \<Rightarrow> Vector3" where
  "crossVectors a b =
     Vector3 (vy a * vz b - vz a * vy b) (vz a * vx b - vx a * vz b) (vx a * vy b - vy a * vx b)"

definition vlength :: "Vector3 \<Rightarrow> real" where
  "vlength v = sqrt (vx v * vx v + vy v * vy v + vz v * vz v)"

text \<open>\<open>normalize\<close> is \<open>divideScalar(length() || 1)\<close>, and \<open>divideScalar(s)\<close> is
  \<open>multiplyScalar(1 / s)\<close>: the zero vector stays zero.\<close>

definition normalize :: "Vector3 \<Rightarrow> Vector3" where
  "normalize v = multiplyScalar v (1 / (if vlength v = 0 then 1 else vlength v))"

definition setLength :: "Vector3 \<Rightarrow> real \<Rightarrow> Vector3" where
  "setLength v len = multiplyScalar (normalize v) len"

definition lerpVectors :: "Vector3 \<Rightarrow> Vector3 \<Rightarrow> real \<Rightarrow> Vector3" where
  "lerpVectors v1 v2 alpha =
     Vector3 (vx v1 + (vx v2 - vx v1) * alpha)
             (vy v1 + (vy v2 - vy v1) * alpha)
             (vz v1 + (vz v2 - vz v1) * alpha)"

definition vequals :: "Vector3 \<Rightarrow> Vector3 \<Rightarrow> bool" where
  "vequals a b \<longleftrightarrow> vx a = vx b \<and> vy a = vy b \<and> vz a = vz b"

text \<open>\<open>Matrix4.makeRotationAxis\<close> builds a rotation whose fourth row and column are those
  of the identity, so the perspective divide of \<open>Vector3.applyMatrix4\<close> is by 1. The
  model keeps the three rows that matter.\<close>

type_synonym Matrix4 = "Vector3 \<times> Vector3 \<times> Vector3"

definition makeRotationAxis :: "Vector3 \<Rightarrow> real \<Rightarrow> Matrix4" where
  "makeRotationAxis axis angle =
     (let c = cos angle; s = sin angle; t = 1 - c;
          x = vx axis; y = vy axis; z = vz axis;
          tx = t * x; ty = t * y
      in (Vector3 (tx * x + c) (tx * y - s * z) (tx * z + s * y),
          Vector3 (tx * y + s * z) (ty * y + c) (ty * z - s * x),
          Vector3 (tx * z - s * y) (ty * z + s * x) (t * z * z + c)))"

definition applyMatrix4 :: "Vector3 \<Rightarrow> Matrix4 \<Rightarrow> Vector3" where
  "applyMatrix4 v m = (case m of (r1, r2, r3) \<Rightarrow> Vector3 (dot r1 v) (dot r2 v) (dot r3 v))"

text \<open>\<open>applyAxisAngle(axis, angle)\<close> is \<open>applyQuaternion\<close> of the quaternion
  \<open>setFromAxisAngle(axis, angle)\<close>.\<close>

definition applyAxisAngle :: "Vector3 \<Rightarrow> Vector3 \<Rightarrow> real \<Rightarrow> Vector3" where
  "applyAxisAngle v axis angle =
     (let halfAngle = angle / 2; s = sin halfAngle;
          qx = vx axis * s; qy = vy axis * s; qz = vz axis * s; qw = cos halfAngle;
          tx = 2 * (qy * vz v - qz * vy v);
          ty = 2 * (qz * vx v - qx * vz v);
          tz = 2 * (qx * vy v - qy * vx v)
      in Vector3 (vx v + qw * tx + qy * tz - qz * ty)
                 (vy v + qw * ty + qz * tx - qx * tz)
                 (vz v + qw * tz + qx * ty - qy * tx))"

text \<open>\<open>QuadraticBezierCurve3.getPoints(divisions)\<close> samples the curve at
  \<open>d / divisions\<close> for \<open>d = 0, \<dots>, divisions\<close>.\<close>

definition QuadraticBezier :: "real \<Rightarrow> real \<Rightarrow> real \<Rightarrow> real \<Rightarrow> real" where
  "QuadraticBezier t p0 p1 p2 = (1 - t) * (1 - t) * p0 + 2 * (1 - t) * t * p1 + t * t * p2"

definition getPoint :: "Vector3 \<times> Vector3 \<times> Vector3 \<Rightarrow> real \<Rightarrow> Vector3" where
  "getPoint curve t = (case curve of (v0, v1, v2) \<Rightarrow>
     Vector3 (QuadraticBezier t (vx v0) (vx v1) (vx v2))
             (QuadraticBezier t (vy v0) (vy v1) (vy v2))
             (QuadraticBezier t (vz v0) (vz v1) (vz v2)))"

definition getPoints :: "Vector3 \<times> Vector3 \<times> Vector3 \<Rightarrow> nat \<Rightarrow> Vector3 list" where
  "getPoints curve divisions = map (\<lambda>d. getPoint curve (real d / real divisions)) [0..<divisions + 1]"

section \<open>PathPoint\<close>

record PathPoint =
  pt_pos :: Vector3
  pt_dir :: Vector3
  pt_right :: Vector3
  pt_up :: Vector3
  pt_dist :: real
  pt_widthScale :: real
  pt_sharp :: bool

definition new_PathPoint :: PathPoint where
  "new_PathPoint = \<lparr> pt_pos = Vector3 0 0 0, pt_dir = Vector3 0 0 0, pt_right = Vector3 0 0 0,
     pt_up = Vector3 0 0 0, pt_dist = 0, pt_widthScale = 1, pt_sharp = False \<rparr>"

text \<open>\<open>lerpPathPoints\<close> writes six fields of the receiver and leaves \<open>sharp\<close> alone.\<close>

definition lerpPathPoints :: "PathPoint \<Rightarrow> PathPoint \<Rightarrow> PathPoint \<Rightarrow> real \<Rightarrow> PathPoint" where
  "lerpPathPoints this p1 p2 alpha = this
     \<lparr> pt_pos := lerpVectors (pt_pos p1) (pt_pos p2) alpha,
       pt_dir := lerpVectors (pt_dir p1) (pt_dir p2) alpha,
       pt_right := lerpVectors (pt_right p1) (pt_right p2) alpha,
       pt_up := lerpVectors (pt_up p1) (pt_up p2) alpha,
       pt_dist := (pt_dist p2 - pt_dist p1) * alpha + pt_dist p1,
       pt_widthScale := (pt_widthScale p2 - pt_widthScale p1) * alpha + pt_widthScale p1 \<rparr>"

text \<open>\<open>copy\<close> likewise copies six fields and not \<open>sharp\<close>.\<close>

definition copy :: "PathPoint \<Rightarrow> PathPoint \<Rightarrow> PathPoint" where
  "copy this source = this
     \<lparr> pt_pos := pt_pos source, pt_dir := pt_dir source, pt_right := pt_right source,
       pt_up := pt_up source, pt_dist := pt_dist source, pt_widthScale := pt_widthScale source \<rparr>"

section \<open>PathPointList\<close>

text \<open>
  The \<open>array\<close> of a list is a JavaScript array that is only ever indexed, never asked for
  its length: a partial map from indices to points, where a missing index reads
  \<open>undefined\<close>. Entries at and beyond \<open>count\<close> are stale points of an earlier
  \<open>set\<close>. Reading a field of \<open>undefined\<close> throws a TypeError.
\<close>

datatype error = TypeError | RangeError

record PathPointList =
  pl_array :: "int \<Rightarrow> PathPoint option"
  pl_count :: int

definition new_PathPointList :: PathPointList where
  "new_PathPointList = \<lparr> pl_array = (\<lambda>i. None), pl_count = 0 \<rparr>"

definition distance :: "PathPointList \<Rightarrow> error + real" where
  "distance l =
     (if pl_count l > 0 then
        (case pl_array l (pl_count l - 1) of
           None \<Rightarrow> Inl TypeError
         | Some p \<Rightarrow> Inr (pt_dist p))
      else Inr 0)"

definition getByIndex :: "PathPointList \<Rightarrow> int \<Rightarrow> PathPoint" where
  "getByIndex l index = (case pl_array l index of None \<Rightarrow> new_PathPoint | Some p \<Rightarrow> p)"

definition put_point :: "PathPointList \<Rightarrow> int \<Rightarrow> PathPoint \<Rightarrow> PathPointList" where
  "put_point l index p = l \<lparr> pl_array := (pl_array l)(index \<mapsto> p) \<rparr>"

text \<open>The initial up vector of \<open>_start\<close> when none is forced: the axis of the smallest
  absolute component of the tangent; the vector the point held before when no component
  is below \<open>Number.MAX_VALUE\<close>.\<close>

definition start_up :: "Vector3 \<Rightarrow> Vector3 \<Rightarrow> Vector3" where
  "start_up d old_up =
     (let tx = \<bar>vx d\<bar>; ty = \<bar>vy d\<bar>; tz = \<bar>vz d\<bar>;
          (min1, up1) = (if tx < MAX_VALUE then (tx, Vector3 1 0 0) else (MAX_VALUE, old_up));
          (min2, up2) = (if ty < min1 then (ty, Vector3 0 1 0) else (min1, up1))
      in if tz < min2 then Vector3 0 0 1 else up2)"

definition pl_start :: "PathPointList \<Rightarrow> Vector3 \<Rightarrow> Vector3 \<Rightarrow> Vector3 option \<Rightarrow> PathPointList" where
  "pl_start l current next forcedUp =
     (let l0 = l \<lparr> pl_count := 0 \<rparr>;
          point = getByIndex l0 0;
          d = subVectors next current;
          up0 = (case forcedUp of Some u \<Rightarrow> u | None \<Rightarrow> start_up d (pt_up point));
          r = normalize (crossVectors d up0);
          u = normalize (crossVectors r d);
          point' = point \<lparr> pt_pos := current, pt_dir := normalize d, pt_right := r, pt_up := u,
                           pt_dist := 0, pt_widthScale := 1, pt_sharp := False \<rparr>
      in (put_point l0 0 point') \<lparr> pl_count := 1 \<rparr>)"

text \<open>Rotation-minimising transport of the up vector, shared by \<open>_end\<close> and the branch of
  \<open>_sharpCorner\<close> without a forced up vector.\<close>

definition transport_up :: "PathPoint \<Rightarrow> Vector3 \<Rightarrow> Vector3" where
  "transport_up lastPoint d =
     (let vec = crossVectors (pt_dir lastPoint) d
      in if vlength vec > EPSILON then
           (let theta = arccos (min (max (dot (pt_dir lastPoint) d) (-1)) 1)
            in applyMatrix4 (pt_up lastPoint) (makeRotationAxis (normalize vec) theta))
         else pt_up lastPoint)"

text \<open>The fields \<open>_end\<close> writes into the point at index \<open>count\<close>.\<close>

definition end_point :: "PathPoint \<Rightarrow> PathPoint \<Rightarrow> Vector3 \<Rightarrow> PathPoint" where
  "end_point point lastPoint current =
     (let d0 = subVectors current (pt_pos lastPoint);
          dist = vlength d0;
          d = normalize d0;
          u = transport_up lastPoint d
      in point \<lparr> pt_pos := current, pt_dir := d,
                  pt_right := normalize (crossVectors d u), pt_up := u,
                  pt_dist := pt_dist lastPoint + dist, pt_widthScale := 1,
                  pt_sharp := False \<rparr>)"

definition pl_end :: "PathPointList \<Rightarrow> Vector3 \<Rightarrow> error + PathPointList" where
  "pl_end l current =
     (case pl_array l (pl_count l - 1) of
        None \<Rightarrow> Inl TypeError
      | Some lastPoint \<Rightarrow>
          Inr ((put_point l (pl_count l) (end_point (getByIndex l (pl_count l)) lastPoint current))
                 \<lparr> pl_count := pl_count l + 1 \<rparr>))"

text \<open>\<open>Math.min(1 / Math.sqrt((1 + _cos) / 2), 1.415) || 1\<close>: the quotient is infinite
  when the radicand is zero, and not a number (hence replaced by 1) when it is negative.\<close>

definition corner_widthScale :: "real \<Rightarrow> real" where
  "corner_widthScale c =
     (let s = (1 + c) / 2
      in if s < 0 then 1 else if s = 0 then 1.415 else min (1 / sqrt s) 1.415)"

text \<open>
  The fields \<open>_sharpCorner\<close> writes into the point at index \<open>count\<close>;
  \<open>dirType\<close> 0 takes the middle direction, 1 the last, 2 the next.

  With a forced up vector the source tests \<open>point.dir.dot(up) === 1\<close>. The exact value
  of the dot product does not decide this test on doubles: for the key points (0, 0, 0),
  (1, 0, 5), (0, 0, 10) and the up vector (0, 0, 1) the tangent at the corner is the up
  vector, yet the computed dot product is 0.9999999999999999 and the test fails. The
  outcome of \<open>===\<close> on two computed numbers is therefore an argument, \<open>same\<close>, of
  \<open>_sharpCorner\<close> and of the methods that call it; equality of the exact values is
  \<open>same = (=)\<close>.
\<close>

definition sharpCorner_point ::
  "(real \<Rightarrow> real \<Rightarrow> bool) \<Rightarrow> PathPoint \<Rightarrow> PathPoint \<Rightarrow> Vector3 \<Rightarrow> Vector3 \<Rightarrow> Vector3 option \<Rightarrow> nat \<Rightarrow> bool \<Rightarrow> PathPoint" where
  "sharpCorner_point same point lastPoint current next forcedUp dirType sharp =
     (let lastDir0 = subVectors current (pt_pos lastPoint);
          nextDir0 = subVectors next current;
          lastDirLength = vlength lastDir0;
          lastDir = normalize lastDir0;
          nextDir = normalize nextDir0;
          d = (if dirType = 1 then lastDir
               else if dirType = 2 then nextDir
               else normalize (addVectors lastDir nextDir));
          r = (case forcedUp of
                 Some up \<Rightarrow> (if same (dot d up) 1 then normalize (crossVectors nextDir up)
                             else normalize (crossVectors d up))
               | None \<Rightarrow> normalize (crossVectors d (transport_up lastPoint d)));
          u = (case forcedUp of
                 Some up \<Rightarrow> normalize (crossVectors r d)
               | None \<Rightarrow> transport_up lastPoint d);
          c = dot lastDir nextDir
      in point \<lparr> pt_pos := current, pt_dir := d, pt_right := r, pt_up := u,
                  pt_dist := pt_dist lastPoint + lastDirLength,
                  pt_widthScale := corner_widthScale c,
                  pt_sharp := (\<bar>c - 1\<bar> > 0.05 \<and> sharp) \<rparr>)"

definition pl_sharpCorner ::
  "(real \<Rightarrow> real \<Rightarrow> bool) \<Rightarrow> PathPointList \<Rightarrow> Vector3 \<Rightarrow> Vector3 \<Rightarrow> Vector3 option \<Rightarrow> nat \<Rightarrow> bool \<Rightarrow> error + PathPointList" where
  "pl_sharpCorner same l current next forcedUp dirType sharp =
     (case pl_array l (pl_count l - 1) of
        None \<Rightarrow> Inl TypeError
      | Some lastPoint \<Rightarrow>
          Inr ((put_point l (pl_count l)
                  (sharpCorner_point same (getByIndex l (pl_count l)) lastPoint current next forcedUp
                     dirType sharp))
                 \<lparr> pl_count := pl_count l + 1 \<rparr>))"

definition getCornerBezierCurve ::
  "Vector3 \<Rightarrow> Vector3 \<Rightarrow> Vector3 \<Rightarrow> real \<Rightarrow> bool \<Rightarrow> Vector3 \<times> Vector3 \<times> Vector3" where
  "getCornerBezierCurve lastPos current next cornerRadius firstCorner =
     (let lastDir0 = subVectors current lastPos;
          nextDir0 = subVectors next current;
          lastDirLength = vlength lastDir0;
          nextDirLength = vlength nextDir0;
          lastDir = normalize lastDir0;
          nextDir = normalize nextDir0;
          v0Dist = min ((if firstCorner then lastDirLength / 2 else lastDirLength) * 0.999999) cornerRadius;
          v0 = subVectors current (multiplyScalar lastDir v0Dist);
          v2Dist = min (nextDirLength / 2 * 0.999999) cornerRadius;
          v2 = addVectors current (multiplyScalar nextDir v2Dist)
      in (v0, current, v2))"

text \<open>A loop body that may throw, run over the values of the loop variable in order.\<close>

fun foldE :: "('a \<Rightarrow> 's \<Rightarrow> error + 's) \<Rightarrow> 'a list \<Rightarrow> 's \<Rightarrow> error + 's" where
  "foldE f [] s = Inr s"
| "foldE f (a # as) s = (case f a s of Inl e \<Rightarrow> Inl e | Inr s' \<Rightarrow> foldE f as s')"

text \<open>\<open>cornerSplit\<close> is an integer count. In the rounding branch it is positive, so the
  curve has \<open>cornerSplit + 1\<close> sample points and every index the loop reads exists.\<close>

definition pl_corner ::
  "(real \<Rightarrow> real \<Rightarrow> bool) \<Rightarrow> PathPointList \<Rightarrow> Vector3 \<Rightarrow> Vector3 \<Rightarrow> real \<Rightarrow> int \<Rightarrow> Vector3 option
     \<Rightarrow> error + PathPointList" where
  "pl_corner same l current next cornerRadius cornerSplit forcedUp =
     (if cornerRadius > 0 \<and> cornerSplit > 0 then
        (case pl_array l (pl_count l - 1) of
           None \<Rightarrow> Inl TypeError
         | Some lastPoint \<Rightarrow>
             (let curve = getCornerBezierCurve (pt_pos lastPoint) current next cornerRadius
                            (pl_count l - 1 = 0);
                  n = nat cornerSplit;
                  samplerPoints = getPoints curve n
              in case foldE (\<lambda>f l'. pl_sharpCorner same l' (samplerPoints ! f) (samplerPoints ! (f + 1))
                                       forcedUp (if f = 0 then 1 else 0) False)
                        [0..<n] l of
                   Inl e \<Rightarrow> Inl e
                 | Inr l1 \<Rightarrow>
                     if \<not> vequals (samplerPoints ! n) next
                     then pl_sharpCorner same l1 (samplerPoints ! n) next forcedUp 2 False
                     else Inr l1))
      else pl_sharpCorner same l current next forcedUp 0 True)"

text \<open>The body of the loop of \<open>set\<close> for index \<open>i\<close>; \<open>points\<close> has at least two
  elements here, so \<open>points[i + 1]\<close> and \<open>points[1]\<close> exist wherever they are read.\<close>

definition set_step ::
  "(real \<Rightarrow> real \<Rightarrow> bool) \<Rightarrow> Vector3 list \<Rightarrow> real \<Rightarrow> int \<Rightarrow> Vector3 option \<Rightarrow> bool \<Rightarrow> nat \<Rightarrow> PathPointList
     \<Rightarrow> error + PathPointList" where
  "set_step same points cornerRadius cornerSplit forcedUp close i l =
     (if i = 0 then Inr (pl_start l (points ! i) (points ! (i + 1)) forcedUp)
      else if i = length points - 1 then
        (if close then
           (case pl_corner same l (points ! i) (points ! 1) cornerRadius cornerSplit forcedUp of
              Inl e \<Rightarrow> Inl e
            | Inr l1 \<Rightarrow>
                (case (pl_array l1 0, pl_array l1 (pl_count l1 - 1)) of
                   (Some first, Some final) \<Rightarrow>
                     (let dist = pt_dist first
                      in Inr (put_point l1 0 ((copy first final) \<lparr> pt_dist := dist \<rparr>)))
                 | _ \<Rightarrow> Inl TypeError))
         else pl_end l (points ! i))
      else pl_corner same l (points ! i) (points ! (i + 1)) cornerRadius cornerSplit forcedUp)"

text \<open>Auto close: a copy of the first point is appended to the copy of the points.\<close>

definition auto_close :: "Vector3 list \<Rightarrow> bool \<Rightarrow> Vector3 list" where
  "auto_close points close =
     (if close \<and> \<not> vequals (points ! 0) (points ! (length points - 1))
      then points @ [points ! 0] else points)"

definition pl_set ::
  "(real \<Rightarrow> real \<Rightarrow> bool) \<Rightarrow> PathPointList \<Rightarrow> Vector3 list \<Rightarrow> real \<Rightarrow> int \<Rightarrow> Vector3 option \<Rightarrow> bool
     \<Rightarrow> error + PathPointList" where
  "pl_set same l points0 cornerRadius cornerSplit forcedUp close =
     (if length points0 < 2 then Inr (l \<lparr> pl_count := 0 \<rparr>)
      else
        (let points = auto_close points0 close
         in foldE (set_step same points cornerRadius cornerSplit forcedUp close) [0..<length points] l))"

section \<open>Vertex data\<close>

text \<open>
  Every emitter fills the arrays \<open>position\<close>, \<open>normal\<close>, \<open>uv\<close>, \<open>uv2\<close> and
  \<open>indices\<close> and keeps two counters: \<open>count\<close>, which it returns, and
  \<open>verticesCount\<close>, which is local to it and kept in the same record here. An emitter
  returns \<open>null\<close> (\<open>None\<close>), an object of the arrays and \<open>count\<close>, or throws.
\<close>

record vertexData =
  vd_position :: "real list"
  vd_normal :: "real list"
  vd_uv :: "real list"
  vd_uv2 :: "real list"
  vd_indices :: "int list"
  vd_count :: int
  vd_verticesCount :: int

definition empty_vertexData :: vertexData where
  "empty_vertexData = \<lparr> vd_position = [], vd_normal = [], vd_uv = [], vd_uv2 = [],
     vd_indices = [], vd_count = 0, vd_verticesCount = 0 \<rparr>"

text \<open>The options object: any field may be absent (\<open>undefined\<close>).\<close>

record options =
  opt_width :: "real option"
  opt_height :: "real option"
  opt_radius :: "real option"
  opt_progress :: "real option"
  opt_arrow :: "bool option"
  opt_side :: "string option"
  opt_radialSegments :: "int option"
  opt_startRad :: "real option"

definition no_options :: options where
  "no_options = \<lparr> opt_width = None, opt_height = None, opt_radius = None, opt_progress = None,
     opt_arrow = None, opt_side = None, opt_radialSegments = None, opt_startRad = None \<rparr>"

text \<open>\<open>v || d\<close> on a number: the default replaces \<open>undefined\<close> and zero.\<close>

definition or_default :: "'a::zero option \<Rightarrow> 'a \<Rightarrow> 'a" where
  "or_default v d = (case v of None \<Rightarrow> d | Some a \<Rightarrow> if a = 0 then d else a)"

text \<open>\<open>v !== undefined ? v : d\<close>.\<close>

definition if_defined :: "'a option \<Rightarrow> 'a \<Rightarrow> 'a" where
  "if_defined v d = (case v of None \<Rightarrow> d | Some a \<Rightarrow> a)"

definition xyz :: "Vector3 \<Rightarrow> real list" where
  "xyz v = [vx v, vy v, vz v]"

definition fromArray :: "real list \<Rightarrow> nat \<Rightarrow> Vector3" where
  "fromArray a off = Vector3 (a ! off) (a ! (off + 1)) (a ! (off + 2))"

subsection \<open>The walk along the samples, shared by the four emitters\<close>

text \<open>
  Each emitter runs the same loop over \<open>array[0 .. count - 1]\<close> with its own
  \<open>addVertices\<close>: a sample whose \<open>dist\<close> exceeds \<open>progressDistance\<close> is replaced by
  the interpolation of the previous sample and itself and ends the loop. The loop returns
  the emitter's state and the interpolated point, if it made one. Reading \<open>dist\<close> of a
  missing sample (index \<open>i\<close>, or \<open>i - 1\<close>) throws.
\<close>

function progress_loop ::
  "(PathPoint \<Rightarrow> 's \<Rightarrow> 's) \<Rightarrow> PathPointList \<Rightarrow> real \<Rightarrow> int \<Rightarrow> 's \<Rightarrow> error + ('s \<times> PathPoint option)" where
  "progress_loop addVertices l progressDistance i st =
     (if i < pl_count l then
        (case pl_array l i of
           None \<Rightarrow> Inl TypeError
         | Some pathPoint \<Rightarrow>
             if pt_dist pathPoint > progressDistance then
               (case pl_array l (i - 1) of
                  None \<Rightarrow> Inl TypeError
                | Some prevPoint \<Rightarrow>
                    (let alpha = (progressDistance - pt_dist prevPoint)
                                   / (pt_dist pathPoint - pt_dist prevPoint);
                         lastPoint = lerpPathPoints new_PathPoint prevPoint pathPoint alpha
                     in Inr (addVertices lastPoint st, Some lastPoint)))
             else progress_loop addVertices l progressDistance (i + 1) (addVertices pathPoint st))
      else Inr (st, None))"
  by pat_completeness auto
termination
  by (relation "measure (\<lambda>(addVertices, l, progressDistance, i, st). nat (pl_count l - i))") auto

declare progress_loop.simps [simp del]

subsection \<open>Ribbon: \<open>generatePathVertexData\<close>\<close>

text \<open>In the sharp-corner branch \<open>position\<close> is not empty, and it then holds at least the
  two vertices of an earlier ring, which \<open>fromArray\<close> reads.\<close>

definition path_addVertices ::
  "string \<Rightarrow> real \<Rightarrow> real \<Rightarrow> real \<Rightarrow> bool \<Rightarrow> PathPoint \<Rightarrow> vertexData \<Rightarrow> vertexData" where
  "path_addVertices side halfWidth sideWidth totalDistance generateUv2 pathPoint st =
     (let position = vd_position st;
          first = (length position = 0);
          sharpCorner = (pt_sharp pathPoint \<and> \<not> first);
          uvDist = pt_dist pathPoint / sideWidth;
          uvDist2 = pt_dist pathPoint / totalDistance;
          sharpUvOffset = halfWidth / sideWidth;
          sharpUvOffset2 = halfWidth / totalDistance;
          dir = pt_dir pathPoint;
          up = pt_up pathPoint;
          right0 = (if side \<noteq> ''left''
                    then multiplyScalar (pt_right pathPoint) (halfWidth * pt_widthScale pathPoint)
                    else Vector3 0 0 0);
          left0 = (if side \<noteq> ''right''
                   then multiplyScalar (pt_right pathPoint) (- halfWidth * pt_widthScale pathPoint)
                   else Vector3 0 0 0);
          right = addVectors right0 (pt_pos pathPoint);
          left = addVectors left0 (pt_pos pathPoint)
      in if sharpCorner then
           (let leftOffset = subVectors (fromArray position (length position - 6)) left;
                rightOffset = subVectors (fromArray position (length position - 3)) right;
                leftDist = vlength leftOffset;
                rightDist = vlength rightOffset;
                sideOffset = leftDist - rightDist;
                longerOffset = (if sideOffset > 0 then leftOffset else rightOffset);
                longEdge = (if sideOffset > 0 then left else right);
                tempPoint1 = addVectors (setLength longerOffset \<bar>sideOffset\<bar>) longEdge;
                cos' = dot (normalize (subVectors longEdge tempPoint1)) dir;
                len' = vlength (subVectors longEdge tempPoint1);
                dist' = cos' * len' * 2;
                tempPoint2 = addVectors (setLength dir dist') tempPoint1;
                verticesCount = vd_verticesCount st + 6
            in st \<lparr>
                 vd_position := position @
                   (if sideOffset > 0
                    then xyz tempPoint1 @ xyz right @ xyz left @ xyz right @ xyz tempPoint2 @ xyz right
                    else xyz left @ xyz tempPoint1 @ xyz left @ xyz right @ xyz left @ xyz tempPoint2),
                 vd_normal := vd_normal st @ xyz up @ xyz up @ xyz up @ xyz up @ xyz up @ xyz up,
                 vd_uv := vd_uv st @
                   [uvDist - sharpUvOffset, 0, uvDist - sharpUvOffset, 1, uvDist, 0, uvDist, 1,
                    uvDist + sharpUvOffset, 0, uvDist + sharpUvOffset, 1],
                 vd_uv2 := vd_uv2 st @
                   (if generateUv2
                    then [uvDist2 - sharpUvOffset2, 0, uvDist2 - sharpUvOffset2, 1, uvDist2, 0,
                          uvDist2, 1, uvDist2 + sharpUvOffset2, 0, uvDist2 + sharpUvOffset2, 1]
                    else []),
                 vd_indices := vd_indices st @
                   (if sideOffset > 0
                    then [verticesCount - 6, verticesCount - 8, verticesCount - 7,
                          verticesCount - 6, verticesCount - 7, verticesCount - 5,
                          verticesCount - 4, verticesCount - 6, verticesCount - 5,
                          verticesCount - 2, verticesCount - 4, verticesCount - 1]
                    else [verticesCount - 6, verticesCount - 8, verticesCount - 7,
                          verticesCount - 6, verticesCount - 7, verticesCount - 5,
                          verticesCount - 6, verticesCount - 5, verticesCount - 3,
                          verticesCount - 2, verticesCount - 3, verticesCount - 1]),
                 vd_count := vd_count st + 12,
                 vd_verticesCount := verticesCount \<rparr>)
         else
           (let verticesCount = vd_verticesCount st + 2
            in st \<lparr>
                 vd_position := position @ xyz left @ xyz right,
                 vd_normal := vd_normal st @ xyz up @ xyz up,
                 vd_uv := vd_uv st @ [uvDist, 0, uvDist, 1],
                 vd_uv2 := vd_uv2 st @ (if generateUv2 then [uvDist2, 0, uvDist2, 1] else []),
                 vd_indices := vd_indices st @
                   (if \<not> first
                    then [verticesCount - 2, verticesCount - 4, verticesCount - 3,
                          verticesCount - 2, verticesCount - 3, verticesCount - 1]
                    else []),
                 vd_count := (if \<not> first then vd_count st + 6 else vd_count st),
                 vd_verticesCount := verticesCount \<rparr>))"

definition path_addStart ::
  "string \<Rightarrow> real \<Rightarrow> real \<Rightarrow> real \<Rightarrow> real \<Rightarrow> bool \<Rightarrow> PathPoint \<Rightarrow> vertexData \<Rightarrow> vertexData" where
  "path_addStart side width halfWidth sideWidth totalDistance generateUv2 pathPoint st =
     (let dir = pt_dir pathPoint;
          up = pt_up pathPoint;
          uvDist = pt_dist pathPoint / sideWidth;
          uvDist2 = pt_dist pathPoint / totalDistance;
          right0 = (if side \<noteq> ''left'' then multiplyScalar (pt_right pathPoint) (halfWidth * 2)
                    else Vector3 0 0 0);
          left0 = (if side \<noteq> ''right'' then multiplyScalar (pt_right pathPoint) (- halfWidth * 2)
                   else Vector3 0 0 0);
          sharp0 = setLength dir (halfWidth * 3);
          right = addVectors right0 (pt_pos pathPoint);
          left = addVectors left0 (pt_pos pathPoint);
          sharp = addVectors sharp0 (pt_pos pathPoint);
          v1 = (if side \<noteq> ''both'' then (if side \<noteq> ''right'' then - 2 else 0) else - 0.5);
          v2 = (if side \<noteq> ''both'' then (if side \<noteq> ''left'' then 2 else 0) else 1.5);
          v3 = (if side \<noteq> ''both'' then 0 else 0.5);
          verticesCount = vd_verticesCount st + 3
      in st \<lparr>
           vd_position := vd_position st @ xyz left @ xyz right @ xyz sharp,
           vd_normal := vd_normal st @ xyz up @ xyz up @ xyz up,
           vd_uv := vd_uv st @ [uvDist, v1, uvDist, v2, uvDist + 1.5, v3],
           vd_uv2 := vd_uv2 st @
             (if generateUv2
              then [uvDist2, v1, uvDist2, v2, uvDist2 + (1.5 * width / totalDistance), v3]
              else []),
           vd_indices := vd_indices st @ [verticesCount - 1, verticesCount - 3, verticesCount - 2],
           vd_count := vd_count st + 3,
           vd_verticesCount := verticesCount \<rparr>)"

definition generatePathVertexData ::
  "PathPointList \<Rightarrow> options \<Rightarrow> bool \<Rightarrow> error + vertexData option" where
  "generatePathVertexData pathPointList opts generateUv2 =
     (let width = or_default (opt_width opts) 0.1;
          progress = if_defined (opt_progress opts) 1;
          arrow = if_defined (opt_arrow opts) True;
          side = if_defined (opt_side opts) ''both'';
          halfWidth = width / 2;
          sideWidth = (if side \<noteq> ''both'' then width / 2 else width)
      in case distance pathPointList of
           Inl e \<Rightarrow> Inl e
         | Inr totalDistance \<Rightarrow>
             (let progressDistance = progress * totalDistance
              in if totalDistance = 0 then Inr None
                 else
                   (case (if progressDistance > 0
                          then progress_loop
                                 (path_addVertices side halfWidth sideWidth totalDistance generateUv2)
                                 pathPointList progressDistance 0 empty_vertexData
                          else Inr (empty_vertexData, pl_array pathPointList 0)) of
                      Inl e \<Rightarrow> Inl e
                    | Inr (st, lastPoint) \<Rightarrow>
                        if arrow then
                          (case (case lastPoint of
                                   Some p \<Rightarrow> Some p
                                 | None \<Rightarrow> pl_array pathPointList (pl_count pathPointList - 1)) of
                             None \<Rightarrow> Inl TypeError
                           | Some p \<Rightarrow>
                               Inr (Some (path_addStart side width halfWidth sideWidth totalDistance
                                            generateUv2 p st)))
                        else Inr (Some st))))"

subsection \<open>Circular tube: \<open>generateTubeVertexData\<close> of PathTubeGeometry\<close>

text \<open>\<open>radialSegments\<close> is an integer count: \<open>Math.max(2, options.radialSegments || 8)\<close>.\<close>

definition tube_radialSegments :: "options \<Rightarrow> int" where
  "tube_radialSegments opts = max 2 (or_default (opt_radialSegments opts) 8)"

definition tube_ring_vertex ::
  "real \<Rightarrow> real \<Rightarrow> real \<Rightarrow> bool \<Rightarrow> real \<Rightarrow> int \<Rightarrow> PathPoint \<Rightarrow> int
     \<Rightarrow> real list \<times> real list \<times> real list \<times> real list" where
  "tube_ring_vertex startRad circum totalDistance generateUv2 radius radialSegments pathPoint r =
     (let uvDist = pt_dist pathPoint / circum;
          uvDist2 = pt_dist pathPoint / totalDistance;
          r' = (if r = radialSegments then 0 else r);
          normalDir = normalize (applyAxisAngle (pt_up pathPoint) (pt_dir pathPoint)
                        (startRad + pi * 2 * real_of_int r' / real_of_int radialSegments))
      in ([vx (pt_pos pathPoint) + vx normalDir * radius * pt_widthScale pathPoint,
           vy (pt_pos pathPoint) + vy normalDir * radius * pt_widthScale pathPoint,
           vz (pt_pos pathPoint) + vz normalDir * radius * pt_widthScale pathPoint],
          xyz normalDir,
          [uvDist, real_of_int r / real_of_int radialSegments],
          (if generateUv2 then [uvDist2, real_of_int r / real_of_int radialSegments] else [])))"

definition quad_indices :: "int \<Rightarrow> int \<Rightarrow> int \<Rightarrow> int list" where
  "quad_indices begin1 begin2 i =
     [begin2 + i, begin1 + i, begin1 + i + 1, begin2 + i, begin1 + i + 1, begin2 + i + 1]"

definition tube_addVertices ::
  "real \<Rightarrow> real \<Rightarrow> real \<Rightarrow> bool \<Rightarrow> real \<Rightarrow> int \<Rightarrow> PathPoint \<Rightarrow> vertexData \<Rightarrow> vertexData" where
  "tube_addVertices startRad circum totalDistance generateUv2 radius radialSegments pathPoint st =
     (let first = (length (vd_position st) = 0);
          ring = map (tube_ring_vertex startRad circum totalDistance generateUv2 radius
                        radialSegments pathPoint) [0..radialSegments];
          verticesCount = vd_verticesCount st + int (length ring);
          begin1 = verticesCount - (radialSegments + 1) * 2;
          begin2 = verticesCount - (radialSegments + 1);
          quads = (if \<not> first then map (quad_indices begin1 begin2) [0..radialSegments - 1] else [])
      in st \<lparr>
           vd_position := vd_position st @ concat (map fst ring),
           vd_normal := vd_normal st @ concat (map (fst \<circ> snd) ring),
           vd_uv := vd_uv st @ concat (map (fst \<circ> snd \<circ> snd) ring),
           vd_uv2 := vd_uv2 st @ concat (map (snd \<circ> snd \<circ> snd) ring),
           vd_indices := vd_indices st @ concat quads,
           vd_count := vd_count st + 6 * int (length quads),
           vd_verticesCount := verticesCount \<rparr>)"

definition generateTubeVertexData ::
  "PathPointList \<Rightarrow> options \<Rightarrow> bool \<Rightarrow> error + vertexData option" where
  "generateTubeVertexData pathPointList opts generateUv2 =
     (let radius = or_default (opt_radius opts) 0.1;
          progress = if_defined (opt_progress opts) 1;
          radialSegments = tube_radialSegments opts;
          startRad = or_default (opt_startRad opts) 0;
          circum = radius * 2 * pi
      in case distance pathPointList of
           Inl e \<Rightarrow> Inl e
         | Inr totalDistance \<Rightarrow>
             (let progressDistance = progress * totalDistance
              in if progressDistance = 0 then Inr None
                 else if progressDistance > 0 then
                   (case progress_loop
                           (tube_addVertices startRad circum totalDistance generateUv2 radius
                              radialSegments)
                           pathPointList progressDistance 0 empty_vertexData of
                      Inl e \<Rightarrow> Inl e
                    | Inr (st, lastPoint) \<Rightarrow> Inr (Some st))
                 else Inr (Some empty_vertexData)))"

subsection \<open>Rectangular tube with 5 vertices per ring (src/PathRectangleGeometry.js)\<close>

text \<open>The band coordinate divides by \<open>(width + height) * 2\<close>, which is zero for options
  such as width 1 and height -1; the value pushed then is not a number and outside the
  model.\<close>

definition rect5_ring_vertex ::
  "real \<Rightarrow> real \<Rightarrow> bool \<Rightarrow> real \<Rightarrow> real \<Rightarrow> PathPoint \<Rightarrow> nat
     \<Rightarrow> real list \<times> real list \<times> real list \<times> real list" where
  "rect5_ring_vertex circum totalDistance generateUv2 width height pathPoint r =
     (let uvDist = pt_dist pathPoint / circum;
          uvDist2 = pt_dist pathPoint / totalDistance;
          totalR = (width + height) * 2;
          normalDir = normalize (crossVectors (pt_up pathPoint) (pt_dir pathPoint));
          heightPos0 = multiplyScalar (normalize (pt_up pathPoint)) (height / 2);
          heightPos = (if r = 2 \<or> r = 3 then negate heightPos0 else heightPos0);
          widthPos0 = multiplyScalar normalDir (width / 2);
          widthPos = (if r = 1 \<or> r = 2 then negate widthPos0 else widthPos0);
          finalPos = addVectors (addVectors (pt_pos pathPoint) heightPos) widthPos;
          nowDis = (if r = 0 then 0 else if r = 1 then width else if r = 2 then width + height
                    else if r = 3 then width + height + width
                    else width + height + width + height)
      in (xyz finalPos, xyz normalDir, [uvDist, nowDis / totalR],
          (if generateUv2 then [uvDist2, nowDis / totalR] else [])))"

definition rect5_addVertices ::
  "real \<Rightarrow> real \<Rightarrow> bool \<Rightarrow> real \<Rightarrow> real \<Rightarrow> PathPoint \<Rightarrow> vertexData \<Rightarrow> vertexData" where
  "rect5_addVertices circum totalDistance generateUv2 width height pathPoint st =
     (let first = (length (vd_position st) = 0);
          ring = map (rect5_ring_vertex circum totalDistance generateUv2 width height pathPoint)
                   [0..<5];
          verticesCount = vd_verticesCount st + int (length ring);
          begin1 = verticesCount - (4 + 1) * 2;
          begin2 = verticesCount - (4 + 1);
          quads = (if \<not> first then map (quad_indices begin1 begin2) [0..3] else [])
      in st \<lparr>
           vd_position := vd_position st @ concat (map fst ring),
           vd_normal := vd_normal st @ concat (map (fst \<circ> snd) ring),
           vd_uv := vd_uv st @ concat (map (fst \<circ> snd \<circ> snd) ring),
           vd_uv2 := vd_uv2 st @ concat (map (snd \<circ> snd \<circ> snd) ring),
           vd_indices := vd_indices st @ concat quads,
           vd_count := vd_count st + 6 * int (length quads),
           vd_verticesCount := verticesCount \<rparr>)"

definition generateRectVertexData5 ::
  "PathPointList \<Rightarrow> options \<Rightarrow> bool \<Rightarrow> error + vertexData option" where
  "generateRectVertexData5 pathPointList opts generateUv2 =
     (let radius = or_default (opt_radius opts) 0.1;
          progress = if_defined (opt_progress opts) 1;
          width = or_default (opt_width opts) 1;
          height = or_default (opt_height opts) 0.5;
          circum = radius * 2 * pi
      in case distance pathPointList of
           Inl e \<Rightarrow> Inl e
         | Inr totalDistance \<Rightarrow>
             (let progressDistance = progress * totalDistance
              in if progressDistance = 0 then Inr None
                 else if progressDistance > 0 then
                   (case progress_loop
                           (rect5_addVertices circum totalDistance generateUv2 width height)
                           pathPointList progressDistance 0 empty_vertexData of
                      Inl e \<Rightarrow> Inl e
                    | Inr (st, lastPoint) \<Rightarrow> Inr (Some st))
                 else Inr (Some empty_vertexData)))"

subsection \<open>Rectangular tube with 8 vertices per ring (the bundled PathRectangleGeometry)\<close>

text \<open>This emitter counts vertices in \<open>count\<close>, pushes nothing to \<open>uv2\<close>, and builds the
  indices in a loop of its own after the walk.\<close>

definition rect8_addVertices :: "real \<Rightarrow> real \<Rightarrow> real \<Rightarrow> PathPoint \<Rightarrow> vertexData \<Rightarrow> vertexData" where
  "rect8_addVertices totalDistance width height pathPoint st =
     (let halfWidth = width / 2;
          halfHeight = height / 2;
          sideTotalDis = (width + height) * 2;
          centerPosition = pt_pos pathPoint;
          up = pt_up pathPoint;
          right = pt_right pathPoint;
          corner = (\<lambda>h w. addVectors (addVectors centerPosition (multiplyScalar up h))
                             (multiplyScalar right w));
          A = corner halfHeight (- halfWidth);
          A1 = corner halfHeight (- halfWidth);
          B = corner halfHeight halfWidth;
          B1 = corner halfHeight halfWidth;
          C = corner (- halfHeight) halfWidth;
          C1 = corner (- halfHeight) halfWidth;
          D = corner (- halfHeight) (- halfWidth);
          D1 = corner (- halfHeight) (- halfWidth);
          normalA = normalize (negate right);
          normalA1 = normalize up;
          normalB = normalA1;
          normalB1 = negate normalA;
          normalC = normalB1;
          normalC1 = negate normalB;
          normalD = normalC1;
          normalD1 = normalA;
          v = pt_dist pathPoint / totalDistance
      in st \<lparr>
           vd_position := vd_position st @ xyz A1 @ xyz B @ xyz B1 @ xyz C @ xyz C1 @ xyz D
                            @ xyz D1 @ xyz A,
           vd_normal := vd_normal st @ xyz normalA1 @ xyz normalB @ xyz normalB1 @ xyz normalC
                          @ xyz normalC1 @ xyz normalD @ xyz normalD1 @ xyz normalA,
           vd_uv := vd_uv st @
             [v, 0, v, width / sideTotalDis, v, width / sideTotalDis,
              v, (height + width) / sideTotalDis, v, (height + width) / sideTotalDis,
              v, (width * 2 + height) / sideTotalDis, v, (width * 2 + height) / sideTotalDis,
              v, 1],
           vd_count := vd_count st + 8 \<rparr>)"

function rect8_indices :: "int \<Rightarrow> int \<Rightarrow> int \<Rightarrow> int list" where
  "rect8_indices i positionNum count =
     (if i < positionNum then
        (if i + 8 < count then
           [i, i + 1, i + 8 + 1, i, i + 8 + 1, i + 8,
            i + 2, i + 3, i + 8 + 3, i + 2, i + 8 + 3, i + 8 + 2,
            i + 4, i + 5, i + 8 + 5, i + 4, i + 8 + 5, i + 8 + 4,
            i + 6, i + 7, i + 8 + 7, i + 6, i + 8 + 7, i + 8 + 6]
         else [])
        @ rect8_indices (i + 8) positionNum count
      else [])"
  by pat_completeness auto
termination
  by (relation "measure (\<lambda>(i, positionNum, count). nat (positionNum - i))") auto

declare rect8_indices.simps [simp del]

text \<open>\<open>position\<close> holds three numbers per vertex, so \<open>position.length / 3\<close> is a whole
  number.\<close>

definition rect8_finish :: "vertexData \<Rightarrow> vertexData" where
  "rect8_finish st =
     (let positionNum = int (length (vd_position st)) div 3
      in st \<lparr> vd_indices := vd_indices st @ rect8_indices 0 positionNum (vd_count st) \<rparr>)"

definition generateRectVertexData8 ::
  "PathPointList \<Rightarrow> options \<Rightarrow> bool \<Rightarrow> error + vertexData option" where
  "generateRectVertexData8 pathPointList opts generateUv2 =
     (let progress = if_defined (opt_progress opts) 1;
          width = or_default (opt_width opts) 1;
          height = or_default (opt_height opts) 0.5
      in case distance pathPointList of
           Inl e \<Rightarrow> Inl e
         | Inr totalDistance \<Rightarrow>
             (let progressDistance = progress * totalDistance
              in if progressDistance = 0 then Inr None
                 else if progressDistance > 0 then
                   (case progress_loop (rect8_addVertices totalDistance width height)
                           pathPointList progressDistance 0 empty_vertexData of
                      Inl e \<Rightarrow> Inl e
                    | Inr (st, lastPoint) \<Rightarrow> Inr (Some (rect8_finish st)))
                 else Inr (Some (rect8_finish empty_vertexData))))"

section \<open>The geometry and its buffers\<close>

text \<open>
  A geometry owns the typed arrays of its attributes \<open>position\<close>, \<open>normal\<close>, \<open>uv\<close>
  and, if it was built with a second uv channel, \<open>uv2\<close>, an index array of 16- or
  32-bit unsigned integers, and the draw range. Rounding of the numbers stored in a
  \<open>Float32Array\<close> and the update ranges that only steer the upload are not modelled.
\<close>

datatype index_array = Uint16Array "nat list" | Uint32Array "nat list"

fun index_length :: "index_array \<Rightarrow> nat" where
  "index_length (Uint16Array a) = length a"
| "index_length (Uint32Array a) = length a"

record geometry =
  attr_position :: "real list"
  attr_normal :: "real list"
  attr_uv :: "real list"
  attr_uv2 :: "real list option"
  attr_index :: index_array
  drawRange_start :: int
  drawRange_count :: int

definition initByMaxVertex :: "nat \<Rightarrow> bool \<Rightarrow> geometry" where
  "initByMaxVertex maxVertex generateUv2 =
     \<lparr> attr_position = replicate (maxVertex * 3) 0,
       attr_normal = replicate (maxVertex * 3) 0,
       attr_uv = replicate (maxVertex * 2) 0,
       attr_uv2 = (if generateUv2 then Some (replicate (maxVertex * 2) 0) else None),
       attr_index = (if maxVertex > 65536 then Uint32Array (replicate (maxVertex * 3) 0)
                     else Uint16Array (replicate (maxVertex * 3) 0)),
       drawRange_start = 0,
       drawRange_count = 0 \<rparr>"

text \<open>The two growth loops double the length until it suffices. They do not end on an
  array of length 0 that has to grow: the result \<open>None\<close> stands for a loop that runs
  forever.\<close>

partial_function (option) resizeAttribute :: "real list \<Rightarrow> nat \<Rightarrow> real list option" where
  "resizeAttribute array len =
     (if length array < len then resizeAttribute (replicate (length array * 2) 0) len
      else Some array)"

partial_function (option) resizeIndex :: "index_array \<Rightarrow> nat \<Rightarrow> index_array option" where
  "resizeIndex index len =
     (if index_length index < len then
        (let oldLength = index_length index
         in resizeIndex (if oldLength * 2 > 65535 then Uint32Array (replicate (oldLength * 2) 0)
                         else Uint16Array (replicate (oldLength * 2) 0)) len)
      else Some index)"

text \<open>\<open>TypedArray.set(source, 0)\<close> overwrites the first elements of the target and throws a
  RangeError when the source is longer than the target.\<close>

definition array_set :: "'a list \<Rightarrow> 'a list \<Rightarrow> error + 'a list" where
  "array_set target source =
     (if length source > length target then Inl RangeError
      else Inr (source @ drop (length source) target))"

fun index_set :: "index_array \<Rightarrow> int list \<Rightarrow> error + index_array" where
  "index_set (Uint16Array a) source =
     map_sum id Uint16Array (array_set a (map (\<lambda>i. nat (i mod 2 ^ 16)) source))"
| "index_set (Uint32Array a) source =
     map_sum id Uint32Array (array_set a (map (\<lambda>i. nat (i mod 2 ^ 32)) source))"

text \<open>Resize an array, then copy the new data into it.\<close>

definition resize_and_set :: "real list \<Rightarrow> real list \<Rightarrow> (error + real list) option" where
  "resize_and_set array source = map_option (\<lambda>a. array_set a source) (resizeAttribute array (length source))"

definition updateAttributes ::
  "geometry \<Rightarrow> real list \<Rightarrow> real list \<Rightarrow> real list \<Rightarrow> real list option \<Rightarrow> int list
     \<Rightarrow> (error + geometry) option" where
  "updateAttributes g position normal uv uv2 indices =
     (case resize_and_set (attr_position g) position of
        None \<Rightarrow> None
      | Some (Inl e) \<Rightarrow> Some (Inl e)
      | Some (Inr p) \<Rightarrow>
     (case resize_and_set (attr_normal g) normal of
        None \<Rightarrow> None
      | Some (Inl e) \<Rightarrow> Some (Inl e)
      | Some (Inr n) \<Rightarrow>
     (case resize_and_set (attr_uv g) uv of
        None \<Rightarrow> None
      | Some (Inl e) \<Rightarrow> Some (Inl e)
      | Some (Inr u) \<Rightarrow>
     (case (case uv2 of
              None \<Rightarrow> Some (Inr (attr_uv2 g))
            | Some source \<Rightarrow>
                (case attr_uv2 g of
                   None \<Rightarrow> Some (Inl TypeError)
                 | Some a \<Rightarrow> map_option (map_sum id Some) (resize_and_set a source))) of
        None \<Rightarrow> None
      | Some (Inl e) \<Rightarrow> Some (Inl e)
      | Some (Inr u2) \<Rightarrow>
     (case resizeIndex (attr_index g) (length indices) of
        None \<Rightarrow> None
      | Some index \<Rightarrow>
          (case index_set index indices of
             Inl e \<Rightarrow> Some (Inl e)
           | Inr index' \<Rightarrow>
               Some (Inr (g \<lparr> attr_position := p, attr_normal := n, attr_uv := u,
                              attr_uv2 := u2, attr_index := index' \<rparr>))))))))"

text \<open>\<open>update\<close> is the same method in the four geometry classes, each with its own
  emitter.\<close>

definition update_with ::
  "(PathPointList \<Rightarrow> options \<Rightarrow> bool \<Rightarrow> error + vertexData option)
     \<Rightarrow> geometry \<Rightarrow> PathPointList \<Rightarrow> options \<Rightarrow> (error + geometry) option" where
  "update_with generate g pathPointList opts =
     (let generateUv2 = (attr_uv2 g \<noteq> None)
      in case generate pathPointList opts generateUv2 of
           Inl e \<Rightarrow> Some (Inl e)
         | Inr None \<Rightarrow> Some (Inr (g \<lparr> drawRange_count := 0 \<rparr>))
         | Inr (Some vertexData) \<Rightarrow>
             (case updateAttributes g (vd_position vertexData) (vd_normal vertexData)
                     (vd_uv vertexData)
                     (if generateUv2 then Some (vd_uv2 vertexData) else None)
                     (vd_indices vertexData) of
                None \<Rightarrow> None
              | Some (Inl e) \<Rightarrow> Some (Inl e)
              | Some (Inr g') \<Rightarrow> Some (Inr (g' \<lparr> drawRange_count := vd_count vertexData \<rparr>))))"

definition PathGeometry_update :: "geometry \<Rightarrow> PathPointList \<Rightarrow> options \<Rightarrow> (error + geometry) option" where
  "PathGeometry_update = update_with generatePathVertexData"

definition PathTubeGeometry_update :: "geometry \<Rightarrow> PathPointList \<Rightarrow> options \<Rightarrow> (error + geometry) option" where
  "PathTubeGeometry_update = update_with generateTubeVertexData"

definition PathRectangleGeometry5_update :: "geometry \<Rightarrow> PathPointList \<Rightarrow> options \<Rightarrow> (error + geometry) option" where
  "PathRectangleGeometry5_update = update_with generateRectVertexData5"

definition PathRectangleGeometry8_update :: "geometry \<Rightarrow> PathPointList \<Rightarrow> options \<Rightarrow> (error + geometry) option" where
  "PathRectangleGeometry8_update = update_with generateRectVertexData8"

section \<open>Notions used to state the properties\<close>

subsection \<open>Frame sequences\<close>

text \<open>The \<open>dist\<close> values of the samples \<open>array[0 .. count - 1]\<close>, and the last of these
  samples.\<close>

definition dists :: "PathPointList \<Rightarrow> real list" where
  "dists l = map (\<lambda>i. pt_dist (the (pl_array l (int i)))) [0..<nat (pl_count l)]"

definition final :: "PathPointList \<Rightarrow> PathPoint" where
  "final l = the (pl_array l (pl_count l - 1))"

text \<open>A list with at least one sample and no hole below \<open>count\<close>.\<close>

definition wf_list :: "PathPointList \<Rightarrow> bool" where
  "wf_list l \<longleftrightarrow> 1 \<le> pl_count l \<and> (\<forall>i. 0 \<le> i \<and> i < pl_count l \<longrightarrow> pl_array l i \<noteq> None)"

text \<open>Writing a point at index \<open>count\<close> and incrementing \<open>count\<close>, as \<open>_end\<close> and
  \<open>_sharpCorner\<close> do.\<close>

definition snoc :: "PathPointList \<Rightarrow> PathPoint \<Rightarrow> PathPointList" where
  "snoc l p = (put_point l (pl_count l) p) \<lparr> pl_count := pl_count l + 1 \<rparr>"

text \<open>The invariant of the distances: they start at 0 and never decrease.\<close>

definition good :: "PathPointList \<Rightarrow> bool" where
  "good l \<longleftrightarrow> wf_list l \<and> sorted (dists l) \<and> pt_dist (the (pl_array l 0)) = 0"

definition grown :: "PathPointList \<Rightarrow> PathPointList \<Rightarrow> bool" where
  "grown l l' \<longleftrightarrow> good l' \<and> pl_count l < pl_count l' \<and> pl_array l' 0 = pl_array l 0"

text \<open>The sum of the distances between consecutive key points.\<close>

definition polyline_length :: "Vector3 list \<Rightarrow> real" where
  "polyline_length ps = (\<Sum>k<length ps - 1. vlength (subVectors (ps ! Suc k) (ps ! k)))"

definition same_frame :: "PathPoint \<Rightarrow> PathPoint \<Rightarrow> bool" where
  "same_frame p q \<longleftrightarrow>
     pt_pos p = pt_pos q \<and> pt_dir p = pt_dir q \<and> pt_up p = pt_up q \<and> pt_right p = pt_right q"

text \<open>What holds before iteration \<open>i\<close> of the loop of \<open>set\<close>; \<open>rounding\<close> says whether
  corners are rounded.\<close>

definition set_inv :: "Vector3 list \<Rightarrow> bool \<Rightarrow> bool \<Rightarrow> nat \<Rightarrow> PathPointList \<Rightarrow> bool" where
  "set_inv points rounding close i s \<longleftrightarrow>
     (i = 0 \<or>
      (good s \<and> int i \<le> pl_count s
       \<and> (\<not> rounding \<longrightarrow> pt_pos (final s) = points ! (i - 1)
             \<and> pt_dist (final s) = (\<Sum>k<i - 1. vlength (subVectors (points ! Suc k) (points ! k))))
       \<and> (close \<and> i = length points \<longrightarrow>
             2 \<le> pl_count s \<and> same_frame (the (pl_array s 0)) (final s))))"

subsection \<open>Emitters\<close>

text \<open>The samples \<open>array[0 .. count - 1]\<close> of a list, in order.\<close>

definition samples :: "PathPointList \<Rightarrow> PathPoint list" where
  "samples l = map (\<lambda>i. the (pl_array l (int i))) [0..<nat (pl_count l)]"

text \<open>Every index below \<open>count\<close> holds a sample.\<close>

definition no_holes :: "PathPointList \<Rightarrow> bool" where
  "no_holes l \<longleftrightarrow> (\<forall>i. 0 \<le> i \<and> i < pl_count l \<longrightarrow> pl_array l i \<noteq> None)"

text \<open>The walk of the emitters over a list of samples; \<open>prev\<close> is what the array holds before the
  first of them.\<close>

fun walk :: "(PathPoint \<Rightarrow> 's \<Rightarrow> 's) \<Rightarrow> real \<Rightarrow> PathPoint option \<Rightarrow> PathPoint list \<Rightarrow> 's
    \<Rightarrow> error + ('s \<times> PathPoint option)" where
  "walk addV pd prev [] st = Inr (st, None)"
| "walk addV pd prev (p # ps) st =
     (if pt_dist p > pd then
        (case prev of
           None \<Rightarrow> Inl TypeError
         | Some q \<Rightarrow>
             (let lp = lerpPathPoints new_PathPoint q p ((pd - pt_dist q) / (pt_dist p - pt_dist q))
              in Inr (addV lp st, Some lp)))
      else walk addV pd (Some p) ps (addV p st))"

text \<open>The closures \<open>addVertices\<close> and \<open>addStart\<close> of the four emitters, with the constants
  the emitter computes from its options.\<close>

definition tube_add :: "options \<Rightarrow> real \<Rightarrow> bool \<Rightarrow> PathPoint \<Rightarrow> vertexData \<Rightarrow> vertexData" where
  "tube_add opts totalDistance generateUv2 =
     tube_addVertices (or_default (opt_startRad opts) 0) (or_default (opt_radius opts) 0.1 * 2 * pi)
       totalDistance generateUv2 (or_default (opt_radius opts) 0.1) (tube_radialSegments opts)"

definition rect5_add :: "options \<Rightarrow> real \<Rightarrow> bool \<Rightarrow> PathPoint \<Rightarrow> vertexData \<Rightarrow> vertexData" where
  "rect5_add opts totalDistance generateUv2 =
     rect5_addVertices (or_default (opt_radius opts) 0.1 * 2 * pi) totalDistance generateUv2
       (or_default (opt_width opts) 1) (or_default (opt_height opts) 0.5)"

definition rect8_add :: "options \<Rightarrow> real \<Rightarrow> PathPoint \<Rightarrow> vertexData \<Rightarrow> vertexData" where
  "rect8_add opts totalDistance =
     rect8_addVertices totalDistance (or_default (opt_width opts) 1) (or_default (opt_height opts) 0.5)"

definition path_sideWidth :: "options \<Rightarrow> real" where
  "path_sideWidth opts =
     (if if_defined (opt_side opts) ''both'' \<noteq> ''both'' then or_default (opt_width opts) 0.1 / 2
      else or_default (opt_width opts) 0.1)"

definition path_add :: "options \<Rightarrow> real \<Rightarrow> bool \<Rightarrow> PathPoint \<Rightarrow> vertexData \<Rightarrow> vertexData" where
  "path_add opts totalDistance generateUv2 =
     path_addVertices (if_defined (opt_side opts) ''both'') (or_default (opt_width opts) 0.1 / 2)
       (path_sideWidth opts) totalDistance generateUv2"

definition path_arrow :: "options \<Rightarrow> real \<Rightarrow> bool \<Rightarrow> PathPoint \<Rightarrow> vertexData \<Rightarrow> vertexData" where
  "path_arrow opts totalDistance generateUv2 =
     path_addStart (if_defined (opt_side opts) ''both'') (or_default (opt_width opts) 0.1)
       (or_default (opt_width opts) 0.1 / 2) (path_sideWidth opts) totalDistance generateUv2"










text \<open>Example input: the two samples \<open>set\<close> computes for the straight path from the origin
  to (10, 0, 0).\<close>

definition frame_x :: "Vector3 \<Rightarrow> real \<Rightarrow> PathPoint" where
  "frame_x p d = \<lparr> pt_pos = p, pt_dir = Vector3 1 0 0, pt_right = Vector3 0 0 1,
     pt_up = Vector3 0 1 0, pt_dist = d, pt_widthScale = 1, pt_sharp = False \<rparr>"

definition straight_path :: PathPointList where
  "straight_path = \<lparr> pl_array = [0 \<mapsto> frame_x (Vector3 0 0 0) 0, 1 \<mapsto> frame_x (Vector3 10 0 0) 10],
     pl_count = 2 \<rparr>"


definition corner_sample :: PathPoint where
  "corner_sample = \<lparr> pt_pos = Vector3 1 0 0, pt_dir = Vector3 (1 / sqrt 2) (1 / sqrt 2) 0,
     pt_right = Vector3 0 0 1, pt_up = Vector3 (- (1 / sqrt 2)) (1 / sqrt 2) 0, pt_dist = 1,
     pt_widthScale = sqrt 2, pt_sharp = True \<rparr>"

definition corner_end :: PathPoint where
  "corner_end = \<lparr> pt_pos = Vector3 1 1 0, pt_dir = Vector3 0 1 0, pt_right = Vector3 0 0 1,
     pt_up = Vector3 (- 1) 0 0, pt_dist = 2, pt_widthScale = 1, pt_sharp = False \<rparr>"

definition corner_path :: PathPointList where
  "corner_path = \<lparr> pl_array = [0 \<mapsto> frame_x (Vector3 0 0 0) 0, 1 \<mapsto> corner_sample,
                                   2 \<mapsto> corner_end],
     pl_count = 3 \<rparr>"




text \<open>The number of vertices an emitter produced (three numbers of \<open>position\<close> each), the
  \<open>count\<close> it returned, and the draw range count after an update.\<close>

definition emitted_vertices :: "error + vertexData option \<Rightarrow> nat option" where
  "emitted_vertices r =
     (case r of Inl e \<Rightarrow> None | Inr None \<Rightarrow> Some 0
      | Inr (Some vd) \<Rightarrow> Some (length (vd_position vd) div 3))"

definition returned_count :: "vertexData option \<Rightarrow> int" where
  "returned_count r = (case r of None \<Rightarrow> 0 | Some vd \<Rightarrow> vd_count vd)"

definition count_after :: "(error + geometry) option \<Rightarrow> int option" where
  "count_after r = (case r of Some (Inr g) \<Rightarrow> Some (drawRange_count g) | _ \<Rightarrow> None)"

text \<open>No buffer of the geometry has length 0.\<close>

definition buffers_nonempty :: "geometry \<Rightarrow> bool" where
  "buffers_nonempty g \<longleftrightarrow>
     0 < length (attr_position g) \<and> 0 < length (attr_normal g) \<and> 0 < length (attr_uv g)
     \<and> (\<forall>a. attr_uv2 g = Some a \<longrightarrow> 0 < length a) \<and> 0 < index_length (attr_index g)"

subsection \<open>Frames\<close>

text \<open>The factor by which \<open>normalize\<close> scales a vector.\<close>

definition norm_factor :: "Vector3 \<Rightarrow> real" where
  "norm_factor v = 1 / (if vlength v = 0 then 1 else vlength v)"


text \<open>A sample whose tangent and right vector are not the zero vector, and a sample whose up
  and right vectors both are.\<close>

definition nondegenerate :: "PathPoint \<Rightarrow> bool" where
  "nondegenerate p \<longleftrightarrow> pt_dir p \<noteq> Vector3 0 0 0 \<and> pt_right p \<noteq> Vector3 0 0 0"









section \<open>The frame sequence built by \<open>set\<close>\<close>

lemma foldE_snoc: "foldE f (xs @ [x]) s = (case foldE f xs s of Inl e \<Rightarrow> Inl e | Inr s' \<Rightarrow> f x s')"
  by (induction xs arbitrary: s) (auto split: sum.splits)

lemma foldE_upt_invariant:
  assumes step: "\<And>i s. i < n \<Longrightarrow> P i s \<Longrightarrow> \<exists>s'. f i s = Inr s' \<and> P (Suc i) s'"
    and init: "P 0 s"
  shows "\<exists>s'. foldE f [0..<n] s = Inr s' \<and> P n s'"
  using step
proof (induction n)
  case 0
  show ?case using init by simp
next
  case (Suc n)
  have "\<exists>s'. foldE f [0..<n] s = Inr s' \<and> P n s'"
    by (rule Suc.IH) (simp add: Suc.prems)
  then obtain s1 where s1: "foldE f [0..<n] s = Inr s1" "P n s1" by blast
  from Suc.prems[of n s1] s1(2) obtain s2 where "f n s1 = Inr s2" "P (Suc n) s2" by auto
  then show ?case using s1 by (simp add: foldE_snoc)
qed

lemma vlength_nonneg: "0 \<le> vlength v"
  by (simp add: vlength_def)

lemma dists_snoc:
  assumes "0 \<le> pl_count l"
  shows "dists (snoc l p) = dists l @ [pt_dist p]"
proof -
  have n: "nat (pl_count l + 1) = Suc (nat (pl_count l))" using assms by simp
  have "map (\<lambda>i. pt_dist (the (((pl_array l)(pl_count l \<mapsto> p)) (int i)))) [0..<nat (pl_count l)]
      = map (\<lambda>i. pt_dist (the (pl_array l (int i)))) [0..<nat (pl_count l)]"
    by (rule map_cong) auto
  then show ?thesis
    using assms by (simp add: dists_def put_point_def n snoc_def)
qed

lemma snoc_simps:
  "pl_count (snoc l p) = pl_count l + 1"
  "final (snoc l p) = p"
  "i \<noteq> pl_count l \<Longrightarrow> pl_array (snoc l p) i = pl_array l i"
  "pl_array (snoc l p) (pl_count l) = Some p"
  by (simp_all add: snoc_def final_def put_point_def)

lemma wf_list_snoc: "0 \<le> pl_count l \<Longrightarrow> (\<forall>i. 0 \<le> i \<and> i < pl_count l \<longrightarrow> pl_array l i \<noteq> None) \<Longrightarrow> wf_list (snoc l p)"
  by (auto simp: wf_list_def snoc_def put_point_def)

lemma wf_list_final: "wf_list l \<Longrightarrow> pl_array l (pl_count l - 1) = Some (final l)"
proof -
  assume "wf_list l"
  then have c: "1 \<le> pl_count l" and a: "\<And>i. 0 \<le> i \<Longrightarrow> i < pl_count l \<Longrightarrow> pl_array l i \<noteq> None"
    by (auto simp: wf_list_def)
  from a[of "pl_count l - 1"] c show ?thesis by (simp add: final_def)
qed

lemma dists_last: "wf_list l \<Longrightarrow> dists l \<noteq> [] \<and> last (dists l) = pt_dist (final l)"
proof -
  assume w: "wf_list l"
  then have "1 \<le> pl_count l" by (simp add: wf_list_def)
  then obtain k where k: "nat (pl_count l) = Suc k"
    by (cases "nat (pl_count l)") auto
  then have "int k = pl_count l - 1" by linarith
  then show ?thesis by (simp add: dists_def k final_def)
qed

lemma sorted_le_last: "sorted xs \<Longrightarrow> x \<in> set xs \<Longrightarrow> (x::real) \<le> last xs"
  by (induction xs) auto

lemma good_snoc:
  assumes "good l" "pt_dist (final l) \<le> pt_dist p"
  shows "good (snoc l p)"
proof -
  have w: "wf_list l" using assms by (simp add: good_def)
  then have c: "1 \<le> pl_count l" by (simp add: wf_list_def)
  have "wf_list (snoc l p)" using w by (intro wf_list_snoc) (auto simp: wf_list_def)
  moreover have "sorted (dists (snoc l p))"
  proof -
    have "\<forall>x\<in>set (dists l). x \<le> last (dists l)"
      using assms(1) by (simp add: good_def sorted_le_last)
    then show ?thesis using assms dists_last[OF w] c
      by (auto simp: dists_snoc sorted_append good_def)
  qed
  moreover have "pl_array (snoc l p) 0 = pl_array l 0"
    using c by (simp add: snoc_simps)
  ultimately show ?thesis using assms by (simp add: good_def)
qed

lemma sharpCorner_eq:
  "wf_list l \<Longrightarrow> pl_sharpCorner same l current next forcedUp dirType sharp
      = Inr (snoc l (sharpCorner_point same (getByIndex l (pl_count l)) (final l) current next forcedUp dirType sharp))"
  by (simp add: pl_sharpCorner_def wf_list_final snoc_def)

lemma sharpCorner_point_simps:
  "pt_pos (sharpCorner_point same q lp current next forcedUp dirType sharp) = current"
  "pt_dist (sharpCorner_point same q lp current next forcedUp dirType sharp)
     = pt_dist lp + vlength (subVectors current (pt_pos lp))"
  by (simp_all add: sharpCorner_point_def Let_def)

lemma end_eq:
  "wf_list l \<Longrightarrow> pl_end l current = Inr (snoc l (end_point (getByIndex l (pl_count l)) (final l) current))"
  by (simp add: pl_end_def wf_list_final snoc_def)

lemma end_point_simps:
  "pt_pos (end_point q lp current) = current"
  "pt_dist (end_point q lp current) = pt_dist lp + vlength (subVectors current (pt_pos lp))"
  by (simp_all add: end_point_def Let_def)

lemma good_wf: "good l \<Longrightarrow> wf_list l" by (simp add: good_def)

lemma sharpCorner_good:
  assumes "good l"
  shows "\<exists>l'. pl_sharpCorner same l current next forcedUp dirType sharp = Inr l' \<and> good l'
           \<and> pl_count l' = pl_count l + 1 \<and> pl_array l' 0 = pl_array l 0
           \<and> pt_pos (final l') = current
           \<and> pt_dist (final l') = pt_dist (final l) + vlength (subVectors current (pt_pos (final l)))"
proof -
  let ?p = "sharpCorner_point same (getByIndex l (pl_count l)) (final l) current next forcedUp dirType sharp"
  have w: "wf_list l" using assms by (rule good_wf)
  then have c: "1 \<le> pl_count l" by (simp add: wf_list_def)
  have "good (snoc l ?p)"
    using assms by (rule good_snoc) (simp add: sharpCorner_point_simps vlength_nonneg)
  then show ?thesis
    using c by (simp add: sharpCorner_eq[OF w] snoc_simps sharpCorner_point_simps)
qed

lemma end_good:
  assumes "good l"
  shows "\<exists>l'. pl_end l current = Inr l' \<and> good l'
           \<and> pl_count l' = pl_count l + 1 \<and> pl_array l' 0 = pl_array l 0
           \<and> pt_pos (final l') = current
           \<and> pt_dist (final l') = pt_dist (final l) + vlength (subVectors current (pt_pos (final l)))"
proof -
  let ?p = "end_point (getByIndex l (pl_count l)) (final l) current"
  have w: "wf_list l" using assms by (rule good_wf)
  then have c: "1 \<le> pl_count l" by (simp add: wf_list_def)
  have "good (snoc l ?p)"
    using assms by (rule good_snoc) (simp add: end_point_simps vlength_nonneg)
  then show ?thesis
    using c by (simp add: end_eq[OF w] snoc_simps end_point_simps)
qed

lemma start_good:
  "good (pl_start l current next forcedUp) \<and> pl_count (pl_start l current next forcedUp) = 1
   \<and> pt_pos (final (pl_start l current next forcedUp)) = current
   \<and> pt_dist (final (pl_start l current next forcedUp)) = 0"
  by (simp add: pl_start_def Let_def good_def wf_list_def dists_def put_point_def final_def)

lemma foldE_sharpCorner_good:
  assumes "good l"
  shows "\<exists>l'. foldE (\<lambda>f l'. pl_sharpCorner same l' (cur f) (nxt f) forcedUp (dt f) sh) fs l = Inr l'
            \<and> good l' \<and> pl_count l \<le> pl_count l' \<and> pl_array l' 0 = pl_array l 0"
  using assms
proof (induction fs arbitrary: l)
  case Nil
  then show ?case by simp
next
  case (Cons a fs)
  from sharpCorner_good[OF Cons.prems, of same "cur a" "nxt a" forcedUp "dt a" sh]
  obtain l1 where l1: "pl_sharpCorner same l (cur a) (nxt a) forcedUp (dt a) sh = Inr l1" "good l1"
      "pl_count l1 = pl_count l + 1" "pl_array l1 0 = pl_array l 0" by blast
  from Cons.IH[OF l1(2)] obtain l2 where
    "foldE (\<lambda>f l'. pl_sharpCorner same l' (cur f) (nxt f) forcedUp (dt f) sh) fs l1 = Inr l2"
    "good l2" "pl_count l1 \<le> pl_count l2" "pl_array l2 0 = pl_array l1 0" by blast
  then show ?case using l1 by simp
qed

lemma corner_good:
  assumes "good l"
  shows "\<exists>l'. pl_corner same l current next cornerRadius cornerSplit forcedUp = Inr l' \<and> grown l l'
           \<and> (\<not> (cornerRadius > 0 \<and> cornerSplit > 0) \<longrightarrow>
                pt_pos (final l') = current
              \<and> pt_dist (final l') = pt_dist (final l) + vlength (subVectors current (pt_pos (final l))))"
proof (cases "cornerRadius > 0 \<and> cornerSplit > 0")
  case False
  from sharpCorner_good[OF assms, of same current "next" forcedUp 0 True]
  show ?thesis using False by (auto simp: pl_corner_def grown_def)
next
  case True
  have w: "wf_list l" using assms by (rule good_wf)
  define curve where "curve = getCornerBezierCurve (pt_pos (final l)) current next cornerRadius (pl_count l - 1 = 0)"
  define sp where "sp = getPoints curve (nat cornerSplit)"
  define n where "n = nat cornerSplit"
  have n0: "0 < n" using True by (simp add: n_def)
  from foldE_sharpCorner_good[OF assms, of same "\<lambda>f. sp ! f" "\<lambda>f. sp ! (f + 1)" forcedUp "\<lambda>f. if f = 0 then 1 else 0" False "[0..<n]"]
  obtain l1 where l1: "foldE (\<lambda>f l'. pl_sharpCorner same l' (sp ! f) (sp ! (f + 1)) forcedUp (if f = 0 then 1 else 0) False) [0..<n] l = Inr l1"
    "good l1" "pl_count l \<le> pl_count l1" "pl_array l1 0 = pl_array l 0" by blast
  have first: "[0..<n] = 0 # [1..<n]" using n0 by (simp add: upt_conv_Cons)
  have lt: "pl_count l < pl_count l1"
  proof -
    from sharpCorner_good[OF assms, of same "sp ! 0" "sp ! (0 + 1)" forcedUp 1 False]
    obtain la where la: "pl_sharpCorner same l (sp ! 0) (sp ! (0 + 1)) forcedUp 1 False = Inr la" "good la"
      "pl_count la = pl_count l + 1" by blast
    from foldE_sharpCorner_good[OF la(2), of same "\<lambda>f. sp ! f" "\<lambda>f. sp ! (f + 1)" forcedUp "\<lambda>f. if f = 0 then 1 else 0" False "[1..<n]"]
    obtain lb where "foldE (\<lambda>f l'. pl_sharpCorner same l' (sp ! f) (sp ! (f + 1)) forcedUp (if f = 0 then 1 else 0) False) [1..<n] la = Inr lb"
      "pl_count la \<le> pl_count lb" by blast
    then have "l1 = lb" using l1(1) la(1) by (simp add: first)
    then show ?thesis using \<open>pl_count la \<le> pl_count lb\<close> la(3) by simp
  qed
  have unfold: "pl_corner same l current next cornerRadius cornerSplit forcedUp =
      (case foldE (\<lambda>f l'. pl_sharpCorner same l' (sp ! f) (sp ! (f + 1)) forcedUp (if f = 0 then 1 else 0) False) [0..<n] l of
         Inl e \<Rightarrow> Inl e
       | Inr l1 \<Rightarrow> if \<not> vequals (sp ! n) next then pl_sharpCorner same l1 (sp ! n) next forcedUp 2 False else Inr l1)"
    unfolding sp_def curve_def n_def
    by (simp only: pl_corner_def Let_def wf_list_final[OF w] option.case True if_True simp_thms)
  show ?thesis
  proof (cases "vequals (sp ! n) next")
    case eq: True
    then show ?thesis using True l1 lt
      by (simp add: unfold grown_def)
  next
    case neq: False
    from sharpCorner_good[OF l1(2), of same "sp ! n" "next" forcedUp 2 False]
    obtain l2 where "pl_sharpCorner same l1 (sp ! n) next forcedUp 2 False = Inr l2" "good l2"
      "pl_count l2 = pl_count l1 + 1" "pl_array l2 0 = pl_array l1 0" by blast
    then show ?thesis using True l1 lt neq
      by (simp add: unfold grown_def)
  qed
qed

lemma dists_put0:
  assumes "pt_dist p = pt_dist (the (pl_array l 0))"
  shows "dists (put_point l 0 p) = dists l"
  unfolding dists_def put_point_def
  by (rule map_cong) (use assms in auto)

lemma fixup_good:
  assumes g: "good l1" and c: "2 \<le> pl_count l1"
  shows "\<exists>f. pl_array l1 0 = Some f \<and> pl_array l1 (pl_count l1 - 1) = Some (final l1)
     \<and> good (put_point l1 0 ((copy f (final l1)) \<lparr> pt_dist := pt_dist f \<rparr>))
     \<and> final (put_point l1 0 ((copy f (final l1)) \<lparr> pt_dist := pt_dist f \<rparr>)) = final l1
     \<and> same_frame (the (pl_array (put_point l1 0 ((copy f (final l1)) \<lparr> pt_dist := pt_dist f \<rparr>)) 0)) (final l1)"
proof -
  have w: "wf_list l1" using g by (rule good_wf)
  then have "pl_array l1 0 \<noteq> None" using c by (simp add: wf_list_def)
  then obtain f where f: "pl_array l1 0 = Some f" by blast
  let ?q = "(copy f (final l1)) \<lparr> pt_dist := pt_dist f \<rparr>"
  have d: "dists (put_point l1 0 ?q) = dists l1" by (rule dists_put0) (simp add: f)
  have "wf_list (put_point l1 0 ?q)" using w by (simp add: wf_list_def put_point_def)
  moreover have "sorted (dists (put_point l1 0 ?q))" using g unfolding d by (simp add: good_def)
  moreover have "pt_dist (the (pl_array (put_point l1 0 ?q) 0)) = 0"
    using g f by (simp add: good_def put_point_def)
  ultimately have "good (put_point l1 0 ?q)" unfolding good_def by blast
  moreover have "final (put_point l1 0 ?q) = final l1" using c by (simp add: final_def put_point_def)
  moreover have "same_frame (the (pl_array (put_point l1 0 ?q) 0)) (final l1)"
    by (simp add: put_point_def same_frame_def copy_def)
  ultimately show ?thesis using f wf_list_final[OF w] by simp
qed

lemma set_step_inv:
  assumes n: "2 \<le> length points" and i: "i < length points"
    and inv: "set_inv points (cornerRadius > 0 \<and> cornerSplit > 0) close i s"
  shows "\<exists>s'. set_step same points cornerRadius cornerSplit forcedUp close i s = Inr s'
           \<and> set_inv points (cornerRadius > 0 \<and> cornerSplit > 0) close (Suc i) s'"
proof (cases "i = 0")
  case True
  then show ?thesis using n start_good[of s "points ! 0" "points ! 1" forcedUp]
    by (simp add: set_step_def set_inv_def)
next
  case i0: False
  then have g: "good s" and cs: "int i \<le> pl_count s" using inv by (simp_all add: set_inv_def)
  have psum: "\<not> (cornerRadius > 0 \<and> cornerSplit > 0) \<Longrightarrow>
      pt_dist (final s) + vlength (subVectors (points ! i) (pt_pos (final s)))
        = (\<Sum>k<i. vlength (subVectors (points ! Suc k) (points ! k)))"
  proof -
    assume "\<not> (cornerRadius > 0 \<and> cornerSplit > 0)"
    then have a: "pt_pos (final s) = points ! (i - 1)"
       "pt_dist (final s) = (\<Sum>k<i - 1. vlength (subVectors (points ! Suc k) (points ! k)))"
      using inv i0 by (simp_all add: set_inv_def)
    obtain j where j: "i = Suc j" using i0 by (cases i) auto
    show ?thesis using a by (simp add: j)
  qed
  show ?thesis
  proof (cases "i = length points - 1")
    case last: True
    show ?thesis
    proof (cases close)
      case False
      from end_good[OF g, of "points ! i"] obtain l' where
        "pl_end s (points ! i) = Inr l'" "good l'" "pl_count l' = pl_count s + 1"
        "pt_pos (final l') = points ! i"
        "pt_dist (final l') = pt_dist (final s) + vlength (subVectors (points ! i) (pt_pos (final s)))"
        by blast
      then show ?thesis using i0 last False psum cs
        by (auto simp: set_step_def set_inv_def)
    next
      case True
      from corner_good[OF g, of same "points ! i" "points ! 1" cornerRadius cornerSplit forcedUp]
      obtain l1 where l1: "pl_corner same s (points ! i) (points ! 1) cornerRadius cornerSplit forcedUp = Inr l1"
        "grown s l1"
        "\<not> (cornerRadius > 0 \<and> cornerSplit > 0) \<longrightarrow> pt_pos (final l1) = points ! i
           \<and> pt_dist (final l1) = pt_dist (final s) + vlength (subVectors (points ! i) (pt_pos (final s)))"
        by blast
      have "1 \<le> pl_count s" using g by (simp add: good_def wf_list_def)
      then have c: "2 \<le> pl_count l1" and g1: "good l1" using l1(2) by (simp_all add: grown_def)
      have ci: "int (Suc i) \<le> pl_count l1" using l1(2) cs by (simp add: grown_def)
      from fixup_good[OF g1 c] obtain f where f: "pl_array l1 0 = Some f"
        "pl_array l1 (pl_count l1 - 1) = Some (final l1)"
        "good (put_point l1 0 ((copy f (final l1)) \<lparr> pt_dist := pt_dist f \<rparr>))"
        "final (put_point l1 0 ((copy f (final l1)) \<lparr> pt_dist := pt_dist f \<rparr>)) = final l1"
        "same_frame (the (pl_array (put_point l1 0 ((copy f (final l1)) \<lparr> pt_dist := pt_dist f \<rparr>)) 0)) (final l1)"
        by blast
      have cnt: "pl_count (put_point l1 0 ((copy f (final l1)) \<lparr> pt_dist := pt_dist f \<rparr>)) = pl_count l1"
        by (simp add: put_point_def)
      show ?thesis using i0 last True l1(1,3) f c psum ci
        by (auto simp: set_step_def set_inv_def Let_def cnt)
    qed
  next
    case mid: False
    from corner_good[OF g, of same "points ! i" "points ! (i + 1)" cornerRadius cornerSplit forcedUp]
    obtain l1 where l1: "pl_corner same s (points ! i) (points ! (i + 1)) cornerRadius cornerSplit forcedUp = Inr l1"
      "grown s l1"
      "\<not> (cornerRadius > 0 \<and> cornerSplit > 0) \<longrightarrow> pt_pos (final l1) = points ! i
         \<and> pt_dist (final l1) = pt_dist (final s) + vlength (subVectors (points ! i) (pt_pos (final s)))"
      by blast
    have "Suc i \<noteq> length points" using mid i by simp
    then show ?thesis using i0 mid l1 psum cs
      by (auto simp: set_step_def set_inv_def grown_def)
  qed
qed

lemma set_result:
  assumes n: "2 \<le> length points"
  shows "\<exists>l'. pl_set same l points cornerRadius cornerSplit forcedUp close = Inr l'
     \<and> set_inv (auto_close points close) (cornerRadius > 0 \<and> cornerSplit > 0) close
          (length (auto_close points close)) l'"
proof -
  let ?ps = "auto_close points close"
  have n': "2 \<le> length ?ps" using n by (simp add: auto_close_def)
  have "\<exists>s'. foldE (set_step same ?ps cornerRadius cornerSplit forcedUp close) [0..<length ?ps] l = Inr s'
          \<and> set_inv ?ps (cornerRadius > 0 \<and> cornerSplit > 0) close (length ?ps) s'"
  proof (rule foldE_upt_invariant[where P = "set_inv ?ps (cornerRadius > 0 \<and> cornerSplit > 0) close"])
    show "set_inv ?ps (cornerRadius > 0 \<and> cornerSplit > 0) close 0 l" by (simp add: set_inv_def)
  next
    fix i s
    assume "i < length ?ps" "set_inv ?ps (cornerRadius > 0 \<and> cornerSplit > 0) close i s"
    then show "\<exists>s'. set_step same ?ps cornerRadius cornerSplit forcedUp close i s = Inr s'
        \<and> set_inv ?ps (cornerRadius > 0 \<and> cornerSplit > 0) close (Suc i) s'"
      by (rule set_step_inv[OF n'])
  qed
  then show ?thesis using n by (simp add: pl_set_def Let_def)
qed

lemma dists_nth: "k < nat (pl_count l) \<Longrightarrow> dists l ! k = pt_dist (the (pl_array l (int k)))"
  by (simp add: dists_def)

lemma good_mono:
  assumes g: "good l" and ij: "0 \<le> i" "i \<le> j" "j < pl_count l"
  shows "\<exists>p q. pl_array l i = Some p \<and> pl_array l j = Some q \<and> pt_dist p \<le> pt_dist q"
proof -
  have w: "wf_list l" and s: "sorted (dists l)" using g by (simp_all add: good_def)
  have "pl_array l i \<noteq> None" "pl_array l j \<noteq> None"
    using w ij by (simp_all add: wf_list_def)
  then obtain p q where pq: "pl_array l i = Some p" "pl_array l j = Some q" by blast
  have len: "length (dists l) = nat (pl_count l)" by (simp add: dists_def)
  have "dists l ! nat i \<le> dists l ! nat j"
    using s ij by (intro sorted_nth_mono) (auto simp: len)
  then show ?thesis using pq ij by (simp add: dists_nth)
qed

lemma set_inv_pos:
  assumes "0 < i" "set_inv points rounding close i s"
  shows "good s" and "int i \<le> pl_count s"
    and "\<not> rounding \<Longrightarrow> pt_dist (final s) = (\<Sum>k<i - 1. vlength (subVectors (points ! Suc k) (points ! k)))"
    and "close \<Longrightarrow> i = length points \<Longrightarrow> 2 \<le> pl_count s \<and> same_frame (the (pl_array s 0)) (final s)"
  using assms by (simp_all add: set_inv_def)

text \<open>
  Claim C7. For every list of key points and every setting, \<open>set\<close> returns normally; the
  first stored sample has \<open>dist\<close> 0, \<open>dist\<close> never decreases along the stored samples,
  \<open>distance()\<close> is the \<open>dist\<close> of the last stored sample and 0 for the empty sequence, and
  with rounding disabled it is the sum of the distances between consecutive key points (of
  the closed polyline when the path is closed).
\<close>

theorem set_dist:
  "\<exists>l'. pl_set same l points cornerRadius cornerSplit forcedUp close = Inr l'
     \<and> (2 \<le> length points \<longrightarrow> 2 \<le> pl_count l')
     \<and> (0 < pl_count l' \<longrightarrow> (\<exists>p. pl_array l' 0 = Some p \<and> pt_dist p = 0))
     \<and> (\<forall>i j. 0 \<le> i \<and> i \<le> j \<and> j < pl_count l' \<longrightarrow>
           (\<exists>p q. pl_array l' i = Some p \<and> pl_array l' j = Some q \<and> pt_dist p \<le> pt_dist q))
     \<and> (0 < pl_count l' \<longrightarrow>
           (\<exists>p. pl_array l' (pl_count l' - 1) = Some p \<and> distance l' = Inr (pt_dist p)))
     \<and> (pl_count l' \<le> 0 \<longrightarrow> distance l' = Inr 0)
     \<and> (\<not> (cornerRadius > 0 \<and> cornerSplit > 0) \<longrightarrow>
           distance l' = Inr (polyline_length (auto_close points close)))"
proof (cases "2 \<le> length points")
  case False
  then have "length points - 1 = 0" by simp
  then have "auto_close points close = points" by (simp add: auto_close_def vequals_def)
  then have "length (auto_close points close) \<le> 1" using False by simp
  then have "polyline_length (auto_close points close) = 0" by (simp add: polyline_length_def)
  then show ?thesis using False by (auto simp: pl_set_def distance_def)
next
  case True
  let ?ps = "auto_close points close"
  let ?n = "length ?ps"
  from set_result[OF True, of same l cornerRadius cornerSplit forcedUp close]
  obtain l' where l': "pl_set same l points cornerRadius cornerSplit forcedUp close = Inr l'"
    "set_inv ?ps (cornerRadius > 0 \<and> cornerSplit > 0) close ?n l'" by blast
  have n: "2 \<le> ?n" using True by (simp add: auto_close_def)
  then have pos: "0 < ?n" by linarith
  have g: "good l'" using set_inv_pos(1)[OF pos l'(2)] .
  then have w: "wf_list l'" by (rule good_wf)
  then have c: "1 \<le> pl_count l'" by (simp add: wf_list_def)
  have c2: "2 \<le> pl_count l'" using set_inv_pos(2)[OF pos l'(2)] n by linarith
  have "pl_array l' 0 \<noteq> None" using w c by (simp add: wf_list_def)
  then have first: "\<exists>p. pl_array l' 0 = Some p \<and> pt_dist p = 0"
    using g by (auto simp: good_def)
  have dist: "distance l' = Inr (pt_dist (final l'))"
    using c by (simp add: distance_def wf_list_final[OF w])
  have sum: "\<not> (cornerRadius > 0 \<and> cornerSplit > 0) \<Longrightarrow> pt_dist (final l') = polyline_length ?ps"
    using set_inv_pos(3)[OF pos l'(2)] by (simp add: polyline_length_def)
  show ?thesis
    using l'(1) first good_mono[OF g] wf_list_final[OF w] dist c c2 sum
    by (intro exI[of _ l']) auto
qed

text \<open>
  Claim C8. For a closed path of at least two key points, after \<open>set\<close> the first stored
  sample has the \<open>pos\<close>, \<open>dir\<close>, \<open>up\<close> and \<open>right\<close> of the last stored sample, a
  different sample, and its \<open>dist\<close> is still 0.
\<close>

theorem set_closed:
  assumes "close" "2 \<le> length points"
  shows "\<exists>l' first final. pl_set same l points cornerRadius cornerSplit forcedUp close = Inr l'
     \<and> 2 \<le> pl_count l'
     \<and> pl_array l' 0 = Some first \<and> pl_array l' (pl_count l' - 1) = Some final
     \<and> pt_pos first = pt_pos final \<and> pt_dir first = pt_dir final
     \<and> pt_up first = pt_up final \<and> pt_right first = pt_right final
     \<and> pt_dist first = 0"
proof -
  let ?ps = "auto_close points close"
  from set_result[OF assms(2), of same l cornerRadius cornerSplit forcedUp close]
  obtain l' where l': "pl_set same l points cornerRadius cornerSplit forcedUp close = Inr l'"
    "set_inv ?ps (cornerRadius > 0 \<and> cornerSplit > 0) close (length ?ps) l'" by blast
  have n: "2 \<le> length ?ps" using assms(2) by (simp add: auto_close_def)
  then have pos: "0 < length ?ps" by linarith
  have g: "good l'" using set_inv_pos(1)[OF pos l'(2)] .
  have c: "2 \<le> pl_count l'" and sf: "same_frame (the (pl_array l' 0)) (final l')"
    using set_inv_pos(4)[OF pos l'(2) assms(1)] by simp_all
  have w: "wf_list l'" using g by (rule good_wf)
  then have "pl_array l' 0 \<noteq> None" using c by (simp add: wf_list_def)
  then obtain f where f: "pl_array l' 0 = Some f" by blast
  have "pt_dist f = 0" using g f by (simp add: good_def)
  then show ?thesis using l'(1) c f wf_list_final[OF w] sf
    by (simp add: same_frame_def)
qed

theorem set_dist_witness:
  "\<exists>l'. pl_set (=) new_PathPointList [Vector3 0 0 0, Vector3 1 0 0] 0 10 None False = Inr l'
     \<and> 2 \<le> pl_count l'
     \<and> (\<exists>p q. pl_array l' 0 = Some p \<and> pl_array l' 1 = Some q \<and> pt_dist p = 0
            \<and> pt_dist p \<le> pt_dist q)
     \<and> distance l' = Inr 1"
proof -
  have len: "polyline_length (auto_close [Vector3 0 0 0, Vector3 1 0 0] False) = 1"
    by (simp add: polyline_length_def auto_close_def subVectors_def vlength_def)
  from set_dist[of "(=)" new_PathPointList "[Vector3 0 0 0, Vector3 1 0 0]" 0 10 None False]
  obtain l' where l': "pl_set (=) new_PathPointList [Vector3 0 0 0, Vector3 1 0 0] 0 10 None False = Inr l'"
    "2 \<le> pl_count l'"
    "0 < pl_count l' \<longrightarrow> (\<exists>p. pl_array l' 0 = Some p \<and> pt_dist p = 0)"
    "\<forall>i j. 0 \<le> i \<and> i \<le> j \<and> j < pl_count l' \<longrightarrow>
       (\<exists>p q. pl_array l' i = Some p \<and> pl_array l' j = Some q \<and> pt_dist p \<le> pt_dist q)"
    "distance l' = Inr 1"
    by (auto simp: len)
  from l'(2,3) obtain p where p: "pl_array l' 0 = Some p" "pt_dist p = 0" by auto
  from l'(2,4) have "\<exists>p q. pl_array l' 0 = Some p \<and> pl_array l' 1 = Some q \<and> pt_dist p \<le> pt_dist q"
    by simp
  then show ?thesis using l'(1,2,5) p by auto
qed

theorem set_closed_witness:
  "\<exists>l' first final.
      pl_set (=) new_PathPointList [Vector3 0 0 0, Vector3 1 0 0, Vector3 1 1 0] 0 10 None True = Inr l'
     \<and> 2 \<le> pl_count l'
     \<and> pl_array l' 0 = Some first \<and> pl_array l' (pl_count l' - 1) = Some final
     \<and> pt_pos first = pt_pos final \<and> pt_dir first = pt_dir final
     \<and> pt_up first = pt_up final \<and> pt_right first = pt_right final
     \<and> pt_dist first = 0"
  using set_closed[of True "[Vector3 0 0 0, Vector3 1 0 0, Vector3 1 1 0]" "(=)" new_PathPointList 0 10 None]
  by simp

text \<open>
  Claim C6. For fewer than two key points \<open>set\<close> returns normally, with \<open>count\<close> 0: the
  sequence is empty and its \<open>distance()\<close> is 0.
\<close>

theorem set_too_few_points:
  "length points < 2 \<Longrightarrow>
     \<exists>l'. pl_set same l points cornerRadius cornerSplit forcedUp close = Inr l'
       \<and> pl_count l' = 0 \<and> distance l' = Inr 0"
  by (simp add: pl_set_def distance_def)

theorem set_too_few_points_witness:
  "\<exists>l'. pl_set (=) new_PathPointList [Vector3 1 2 3] 0.1 10 None False = Inr l'
     \<and> pl_count l' = 0 \<and> distance l' = Inr 0"
  using set_too_few_points[of "[Vector3 1 2 3]" "(=)" new_PathPointList "0.1" 10 None False]
  by simp

section \<open>The walk along the samples\<close>

lemma progress_loop_invariant:
  "(\<And>p s. I s \<Longrightarrow> I (addV p s)) \<Longrightarrow> I st \<Longrightarrow> progress_loop addV l pd i st = Inr (st', lp) \<Longrightarrow> I st'"
proof (induction addV l pd i st rule: progress_loop.induct)
  case (1 addV l pd i st)
  note step = "1.prems"(1)
  show ?case
  proof (cases "i < pl_count l")
    case False
    then show ?thesis using "1.prems" by (simp add: progress_loop.simps[of addV l pd i st])
  next
    case True
    then obtain p where p: "pl_array l i = Some p"
      using "1.prems"(3) by (cases "pl_array l i") (simp_all add: progress_loop.simps[of addV l pd i st])
    show ?thesis
    proof (cases "pt_dist p > pd")
      case gt: True
      then show ?thesis using True p "1.prems"(2,3) step
        by (cases "pl_array l (i - 1)") (auto simp: progress_loop.simps[of addV l pd i st] Let_def)
    next
      case le: False
      have "progress_loop addV l pd (i + 1) (addV p st) = Inr (st', lp)"
        using True p le "1.prems"(3) by (simp add: progress_loop.simps[of addV l pd i st])
      moreover have "I (addV p st)" using "1.prems"(2) step by simp
      ultimately show ?thesis using "1.IH"[OF True p] le step by simp
    qed
  qed
qed

lemma progress_loop_truncated:
  "progress_loop addV l pd i st = Inr (st', Some lp) \<Longrightarrow>
     \<exists>st0 prev cur. st' = addV lp st0
       \<and> lp = lerpPathPoints new_PathPoint prev cur ((pd - pt_dist prev) / (pt_dist cur - pt_dist prev))
       \<and> pd < pt_dist cur"
proof (induction addV l pd i st rule: progress_loop.induct)
  case (1 addV l pd i st)
  show ?case
  proof (cases "i < pl_count l")
    case False
    then show ?thesis using "1.prems" by (simp add: progress_loop.simps[of addV l pd i st])
  next
    case True
    then obtain p where p: "pl_array l i = Some p"
      using "1.prems" by (cases "pl_array l i") (simp_all add: progress_loop.simps[of addV l pd i st])
    show ?thesis
    proof (cases "pt_dist p > pd")
      case gt: True
      then show ?thesis using True p "1.prems"
        by (cases "pl_array l (i - 1)") (auto simp: progress_loop.simps[of addV l pd i st] Let_def)
    next
      case le: False
      have "progress_loop addV l pd (i + 1) (addV p st) = Inr (st', Some lp)"
        using True p le "1.prems" by (simp add: progress_loop.simps[of addV l pd i st])
      then show ?thesis using "1.IH"[OF True p] le by simp
    qed
  qed
qed

lemma lerp_not_sharp: "\<not> pt_sharp (lerpPathPoints new_PathPoint p q a)"
  by (simp add: lerpPathPoints_def new_PathPoint_def)

lemma path_addVertices_plain:
  assumes "\<not> pt_sharp p"
  shows "length (vd_position (path_addVertices side hw sw td u2 p st)) = length (vd_position st) + 6"
    and "vd_verticesCount (path_addVertices side hw sw td u2 p st) = vd_verticesCount st + 2"
    and "length (vd_normal (path_addVertices side hw sw td u2 p st)) = length (vd_normal st) + 6"
    and "length (vd_uv (path_addVertices side hw sw td u2 p st)) = length (vd_uv st) + 4"
  using assms by (simp_all add: path_addVertices_def Let_def xyz_def)

lemma path_addVertices_count:
  "vd_count st = int (length (vd_indices st)) \<Longrightarrow>
   vd_count (path_addVertices side hw sw td u2 p st) = int (length (vd_indices (path_addVertices side hw sw td u2 p st)))"
  by (simp add: path_addVertices_def Let_def)

lemma path_addStart_count:
  "vd_count st = int (length (vd_indices st)) \<Longrightarrow>
   vd_count (path_addStart side w hw sw td u2 p st) = int (length (vd_indices (path_addStart side w hw sw td u2 p st)))"
  by (simp add: path_addStart_def Let_def)

lemma tube_addVertices_count:
  "vd_count st = int (length (vd_indices st)) \<Longrightarrow>
   vd_count (tube_addVertices sr c td u2 r rs p st) = int (length (vd_indices (tube_addVertices sr c td u2 r rs p st)))"
  by (simp add: tube_addVertices_def Let_def length_concat o_def quad_indices_def sum_list_triv)

lemma rect5_addVertices_count:
  "vd_count st = int (length (vd_indices st)) \<Longrightarrow>
   vd_count (rect5_addVertices c td u2 w h p st) = int (length (vd_indices (rect5_addVertices c td u2 w h p st)))"
  by (simp add: rect5_addVertices_def Let_def length_concat o_def quad_indices_def sum_list_triv)

lemma rect8_addVertices_count:
  "int (length (vd_position st)) = 3 * vd_count st \<Longrightarrow>
   int (length (vd_position (rect8_addVertices td w h p st))) = 3 * vd_count (rect8_addVertices td w h p st)"
  by (simp add: rect8_addVertices_def Let_def xyz_def)

section \<open>The walk as a function on the list of samples\<close>

lemma samples_length: "length (samples l) = nat (pl_count l)"
  by (simp add: samples_def)

lemma samples_nth: "no_holes l \<Longrightarrow> 0 \<le> i \<Longrightarrow> i < pl_count l \<Longrightarrow> pl_array l i = Some (samples l ! nat i)"
  by (auto simp: samples_def no_holes_def)

lemma progress_loop_walk:
  "no_holes l \<Longrightarrow> 0 \<le> i \<Longrightarrow>
   progress_loop addV l pd i st = walk addV pd (pl_array l (i - 1)) (drop (nat i) (samples l)) st"
proof (induction addV l pd i st rule: progress_loop.induct)
  case (1 addV l pd i st)
  show ?case
  proof (cases "i < pl_count l")
    case False
    then have "drop (nat i) (samples l) = []" using "1.prems" by (simp add: samples_length)
    then show ?thesis using False by (simp add: progress_loop.simps[of addV l pd i st])
  next
    case True
    let ?p = "samples l ! nat i"
    have p: "pl_array l i = Some ?p" using samples_nth[OF "1.prems"(1,2) True] .
    have d: "drop (nat i) (samples l) = ?p # drop (nat (i + 1)) (samples l)"
      using True "1.prems"(2) by (simp add: Cons_nth_drop_Suc samples_length nat_add_distrib)
    show ?thesis
    proof (cases "pt_dist ?p > pd")
      case gt: True
      then show ?thesis using True p d
        by (simp add: progress_loop.simps[of addV l pd i st] Let_def split: option.splits)
    next
      case le: False
      have "progress_loop addV l pd (i + 1) (addV ?p st)
          = walk addV pd (pl_array l (i + 1 - 1)) (drop (nat (i + 1)) (samples l)) (addV ?p st)"
        using "1.IH"[OF True p] le "1.prems" by simp
      then show ?thesis using True p d le
        by (simp add: progress_loop.simps[of addV l pd i st])
    qed
  qed
qed

lemma walk_all_kept:
  "\<forall>p\<in>set ps. pt_dist p \<le> pd \<Longrightarrow> walk addV pd prev ps st = Inr (fold addV ps st, None)"
  by (induction ps arbitrary: prev st) auto







lemma walk_no_error:
  "prev \<noteq> None \<or> (\<forall>p. ps = p # tl ps \<longrightarrow> pt_dist p \<le> pd) \<Longrightarrow> walk addV pd prev ps st \<noteq> Inl e"
  by (induction ps arbitrary: prev st) (auto simp: Let_def)

lemma progress_loop_no_error:
  assumes "no_holes l" "\<forall>p. pl_array l 0 = Some p \<longrightarrow> pt_dist p \<le> pd"
  shows "progress_loop addV l pd 0 st \<noteq> Inl e"
proof -
  have eq: "progress_loop addV l pd 0 st = walk addV pd (pl_array l (0 - 1)) (samples l) st"
    using progress_loop_walk[OF assms(1), of 0 addV pd st] by simp
  have "\<forall>p. samples l = p # tl (samples l) \<longrightarrow> pt_dist p \<le> pd"
  proof (intro allI impI)
    fix p assume p: "samples l = p # tl (samples l)"
    then have "0 < length (samples l)" by (metis length_greater_0_conv list.distinct(1))
    then have c: "0 < pl_count l" by (simp add: samples_length)
    from samples_nth[OF assms(1) _ c] have "pl_array l 0 = Some (samples l ! 0)" by simp
    moreover have "samples l ! 0 = p" using p by (metis nth_Cons_0)
    ultimately show "pt_dist p \<le> pd" using assms(2) by simp
  qed
  then show ?thesis unfolding eq by (intro walk_no_error) simp
qed

lemma distance_no_error: "no_holes l \<Longrightarrow> distance l \<noteq> Inl e"
proof -
  assume "no_holes l"
  then have "0 < pl_count l \<Longrightarrow> pl_array l (pl_count l - 1) \<noteq> None"
    by (simp add: no_holes_def)
  then show ?thesis by (auto simp: distance_def split: option.splits)
qed

section \<open>The emitters in terms of their closures\<close>

lemma generateTubeVertexData_unfold:
  "generateTubeVertexData l opts u2 =
     (case distance l of
        Inl e \<Rightarrow> Inl e
      | Inr td \<Rightarrow>
          (if if_defined (opt_progress opts) 1 * td = 0 then Inr None
           else if if_defined (opt_progress opts) 1 * td > 0 then
             (case progress_loop (tube_add opts td u2) l (if_defined (opt_progress opts) 1 * td) 0
                     empty_vertexData of
                Inl e \<Rightarrow> Inl e
              | Inr (st, lp) \<Rightarrow> Inr (Some st))
           else Inr (Some empty_vertexData)))"
  by (simp only: generateTubeVertexData_def tube_add_def Let_def)

lemma generateRectVertexData5_unfold:
  "generateRectVertexData5 l opts u2 =
     (case distance l of
        Inl e \<Rightarrow> Inl e
      | Inr td \<Rightarrow>
          (if if_defined (opt_progress opts) 1 * td = 0 then Inr None
           else if if_defined (opt_progress opts) 1 * td > 0 then
             (case progress_loop (rect5_add opts td u2) l (if_defined (opt_progress opts) 1 * td) 0
                     empty_vertexData of
                Inl e \<Rightarrow> Inl e
              | Inr (st, lp) \<Rightarrow> Inr (Some st))
           else Inr (Some empty_vertexData)))"
  by (simp only: generateRectVertexData5_def rect5_add_def Let_def)

lemma generateRectVertexData8_unfold:
  "generateRectVertexData8 l opts u2 =
     (case distance l of
        Inl e \<Rightarrow> Inl e
      | Inr td \<Rightarrow>
          (if if_defined (opt_progress opts) 1 * td = 0 then Inr None
           else if if_defined (opt_progress opts) 1 * td > 0 then
             (case progress_loop (rect8_add opts td) l (if_defined (opt_progress opts) 1 * td) 0
                     empty_vertexData of
                Inl e \<Rightarrow> Inl e
              | Inr (st, lp) \<Rightarrow> Inr (Some (rect8_finish st)))
           else Inr (Some (rect8_finish empty_vertexData))))"
  by (simp only: generateRectVertexData8_def rect8_add_def Let_def)

lemma generatePathVertexData_unfold:
  "generatePathVertexData l opts u2 =
     (case distance l of
        Inl e \<Rightarrow> Inl e
      | Inr td \<Rightarrow>
          (if td = 0 then Inr None
           else
             (case (if if_defined (opt_progress opts) 1 * td > 0
                    then progress_loop (path_add opts td u2) l
                           (if_defined (opt_progress opts) 1 * td) 0 empty_vertexData
                    else Inr (empty_vertexData, pl_array l 0)) of
                Inl e \<Rightarrow> Inl e
              | Inr (st, lastPoint) \<Rightarrow>
                  if if_defined (opt_arrow opts) True then
                    (case (case lastPoint of Some p \<Rightarrow> Some p
                           | None \<Rightarrow> pl_array l (pl_count l - 1)) of
                       None \<Rightarrow> Inl TypeError
                     | Some p \<Rightarrow> Inr (Some (path_arrow opts td u2 p st)))
                  else Inr (Some st))))"
  by (simp only: generatePathVertexData_def path_add_def path_arrow_def path_sideWidth_def Let_def)

lemma path_addVertices_proj:
  "vd_count (path_addVertices side hw sw td u2 p st)
     = vd_count st + (if vd_position st = [] then 0 else if pt_sharp p then 12 else 6)"
  "length (vd_indices (path_addVertices side hw sw td u2 p st))
     = length (vd_indices st) + (if vd_position st = [] then 0 else if pt_sharp p then 12 else 6)"
  "length (vd_position (path_addVertices side hw sw td u2 p st))
     = length (vd_position st) + (if pt_sharp p \<and> vd_position st \<noteq> [] then 18 else 6)"
  "vd_verticesCount (path_addVertices side hw sw td u2 p st)
     = vd_verticesCount st + (if pt_sharp p \<and> vd_position st \<noteq> [] then 6 else 2)"
  by (simp_all add: path_addVertices_def Let_def xyz_def)

lemma path_addVertices_nonempty: "vd_position (path_addVertices side hw sw td u2 p st) \<noteq> []"
  by (simp add: path_addVertices_def Let_def xyz_def)

lemma path_addStart_proj:
  "vd_count (path_addStart side w hw sw td u2 p st) = vd_count st + 3"
  "length (vd_indices (path_addStart side w hw sw td u2 p st)) = length (vd_indices st) + 3"
  "length (vd_position (path_addStart side w hw sw td u2 p st)) = length (vd_position st) + 9"
  by (simp_all add: path_addStart_def Let_def xyz_def)

lemma empty_vertexData_simps:
  "vd_position empty_vertexData = []" "vd_indices empty_vertexData = []"
  "vd_count empty_vertexData = 0" "vd_verticesCount empty_vertexData = 0"
  "vd_normal empty_vertexData = []" "vd_uv empty_vertexData = []" "vd_uv2 empty_vertexData = []"
  by (simp_all add: empty_vertexData_def)

lemma rect8_finish_empty: "rect8_finish empty_vertexData = empty_vertexData"
  by (simp add: rect8_finish_def empty_vertexData_def rect8_indices.simps[of 0 0 0])


















section \<open>The example paths\<close>

lemma vec_eval:
  "subVectors (Vector3 a b c) (Vector3 d e f) = Vector3 (a - d) (b - e) (c - f)"
  "addVectors (Vector3 a b c) (Vector3 d e f) = Vector3 (a + d) (b + e) (c + f)"
  "multiplyScalar (Vector3 a b c) s = Vector3 (a * s) (b * s) (c * s)"
  "negate (Vector3 a b c) = Vector3 (- a) (- b) (- c)"
  "dot (Vector3 a b c) (Vector3 d e f) = a * d + b * e + c * f"
  "crossVectors (Vector3 a b c) (Vector3 d e f) = Vector3 (b * f - c * e) (c * d - a * f) (a * e - b * d)"
  "vlength (Vector3 a b c) = sqrt (a * a + b * b + c * c)"
  "vequals (Vector3 a b c) (Vector3 d e f) \<longleftrightarrow> a = d \<and> b = e \<and> c = f"
  "lerpVectors (Vector3 a b c) (Vector3 d e f) t = Vector3 (a + (d - a) * t) (b + (e - b) * t) (c + (f - c) * t)"
  by (simp_all add: subVectors_def addVectors_def multiplyScalar_def negate_def dot_def
      crossVectors_def vlength_def vequals_def lerpVectors_def)

lemma Let_value:
  "Let (Vector3 a b c) f = f (Vector3 a b c)"
  "Let (x, y) g = g (x, y)"
  "Let True h = h True"
  "Let False h = h False"
  "Let (Some v) k = k (Some v)"
  "Let None k = k None"
  by (simp_all add: Let_def)

lemma sqrt100: "sqrt 100 = 10"
  using real_sqrt_abs[of 10] by simp

lemma start_straight:
  "pl_start new_PathPointList (Vector3 0 0 0) (Vector3 10 0 0) None
     = \<lparr> pl_array = [0 \<mapsto> frame_x (Vector3 0 0 0) 0], pl_count = 1 \<rparr>"
  by (simp add: pl_start_def start_up_def MAX_VALUE_def getByIndex_def new_PathPointList_def
      new_PathPoint_def put_point_def frame_x_def vec_eval normalize_def sqrt100 Let_value
      cong: let_weak_cong)

lemma end_straight:
  "pl_end \<lparr> pl_array = [0 \<mapsto> frame_x (Vector3 0 0 0) 0], pl_count = 1 \<rparr> (Vector3 10 0 0)
     = Inr straight_path"
  by (simp add: pl_end_def end_point_def transport_up_def EPSILON_def getByIndex_def
      new_PathPoint_def put_point_def frame_x_def vec_eval normalize_def sqrt100 Let_value
      straight_path_def cong: let_weak_cong)

lemma set_straight:
  "pl_set same new_PathPointList [Vector3 0 0 0, Vector3 10 0 0] 0.1 10 None False = Inr straight_path"
proof -
  have u: "[0..<2] = [0, 1]" by (simp add: upt_rec)
  show ?thesis
    by (simp add: pl_set_def auto_close_def set_step_def u start_straight end_straight)
qed

lemma frame_x_simps:
  "pt_dist (frame_x p d) = d" "pt_pos (frame_x p d) = p" "\<not> pt_sharp (frame_x p d)"
  "pt_dist ((frame_x p d) \<lparr> pt_sharp := b \<rparr>) = d"
  by (simp_all add: frame_x_def)

lemma straight_path_simps:
  "pl_count straight_path = 2"
  "pl_array straight_path 0 = Some (frame_x (Vector3 0 0 0) 0)"
  "pl_array straight_path 1 = Some (frame_x (Vector3 10 0 0) 10)"
  "pl_array straight_path (- 1) = None"
  by (simp_all add: straight_path_def)

lemma samples_straight:
  "samples straight_path = [frame_x (Vector3 0 0 0) 0, frame_x (Vector3 10 0 0) 10]"
proof -
  have u: "[0..<2] = [0, 1]" by (simp add: upt_rec)
  show ?thesis by (simp add: samples_def straight_path_def u)
qed

lemma no_holes_straight: "no_holes straight_path"
  by (auto simp: no_holes_def straight_path_def)


lemma distance_straight: "distance straight_path = Inr 10"
  by (simp add: distance_def straight_path_def frame_x_def)

lemma progress_loop_straight_full:
  "progress_loop addV straight_path 10 0 st
     = Inr (addV (frame_x (Vector3 10 0 0) 10) (addV (frame_x (Vector3 0 0 0) 0) st), None)"
proof -
  have "progress_loop addV straight_path 10 0 st
      = walk addV 10 (pl_array straight_path (0 - 1)) (drop (nat 0) (samples straight_path)) st"
    by (rule progress_loop_walk) (simp_all add: no_holes_straight)
  then show ?thesis by (simp add: samples_straight frame_x_simps)
qed

lemma path_straight_default:
  "generatePathVertexData straight_path no_options False
     = Inr (Some (path_arrow no_options 10 False (frame_x (Vector3 10 0 0) 10)
                    (path_add no_options 10 False (frame_x (Vector3 10 0 0) 10)
                       (path_add no_options 10 False (frame_x (Vector3 0 0 0) 0) empty_vertexData))))"
  by (simp add: generatePathVertexData_unfold distance_straight progress_loop_straight_full
      straight_path_simps no_options_def if_defined_def)

lemma path_straight_default_counts:
  "vd_count (path_arrow no_options 10 False (frame_x (Vector3 10 0 0) 10)
                    (path_add no_options 10 False (frame_x (Vector3 10 0 0) 10)
                       (path_add no_options 10 False (frame_x (Vector3 0 0 0) 0) empty_vertexData))) = 9"
  "length (vd_position (path_arrow no_options 10 False (frame_x (Vector3 10 0 0) 10)
                    (path_add no_options 10 False (frame_x (Vector3 10 0 0) 10)
                       (path_add no_options 10 False (frame_x (Vector3 0 0 0) 0) empty_vertexData)))) = 21"
  by (simp_all add: path_arrow_def path_add_def path_addStart_proj path_addVertices_proj
      path_addVertices_nonempty empty_vertexData_simps frame_x_simps)














lemma corner_path_simps:
  "pl_count corner_path = 3"
  "pl_array corner_path 0 = Some (frame_x (Vector3 0 0 0) 0)"
  "pl_array corner_path 1 = Some corner_sample"
  "pl_array corner_path 2 = Some corner_end"
  by (simp_all add: corner_path_def)

lemma corner_sample_simps: "pt_dist corner_sample = 1" "pt_sharp corner_sample"
  by (simp_all add: corner_sample_def)

section \<open>The circular tube\<close>

text \<open>
  Claim C5, amended. The effective number of radial segments is
  \<open>max 2 (radialSegments || 8)\<close>: it is always at least 2, equals the requested value when
  that is at least 2, is 2 for a requested value below 2 other than 0, and is the default 8
  when the option is 0 or absent.
\<close>

theorem tube_radialSegments_value:
  "tube_radialSegments opts =
     (case opt_radialSegments opts of
        None \<Rightarrow> 8
      | Some n \<Rightarrow> if n = 0 then 8 else if n < 2 then 2 else n)
   \<and> 2 \<le> tube_radialSegments opts"
  by (simp add: tube_radialSegments_def or_default_def split: option.splits)

theorem tube_radialSegments_zero_counterexample:
  "tube_radialSegments (no_options \<lparr> opt_radialSegments := Some 0 \<rparr>) \<noteq> 2"
  by (simp add: tube_radialSegments_def or_default_def no_options_def)

section \<open>Truncation by progress\<close>



text \<open>
  Claim C9. Whenever the walk of the ribbon emitter truncates, the interpolated sample is
  not sharp, whatever the samples around it are, and the ring emitted for it is the plain
  one: two vertices (six numbers), not the six-vertex fan.
\<close>

theorem ribbon_truncation_plain:
  "progress_loop (path_addVertices side halfWidth sideWidth totalDistance generateUv2)
       l progressDistance i st = Inr (st', Some lastPoint) \<Longrightarrow>
     \<not> pt_sharp lastPoint
     \<and> (\<exists>st0. st' = path_addVertices side halfWidth sideWidth totalDistance generateUv2 lastPoint st0
            \<and> length (vd_position st') = length (vd_position st0) + 6
            \<and> vd_verticesCount st' = vd_verticesCount st0 + 2)"
proof -
  assume a: "progress_loop (path_addVertices side halfWidth sideWidth totalDistance generateUv2)
       l progressDistance i st = Inr (st', Some lastPoint)"
  from progress_loop_truncated[OF a] obtain st0 prev cur where
    s: "st' = path_addVertices side halfWidth sideWidth totalDistance generateUv2 lastPoint st0"
    "lastPoint = lerpPathPoints new_PathPoint prev cur
        ((progressDistance - pt_dist prev) / (pt_dist cur - pt_dist prev))"
    by blast
  have n: "\<not> pt_sharp lastPoint" unfolding s(2) by (rule lerp_not_sharp)
  then show ?thesis using s(1) by (auto simp: path_addVertices_proj)
qed

theorem ribbon_truncation_plain_witness:
  "\<exists>st' lastPoint.
      progress_loop (path_addVertices ''both'' 0.05 0.1 2 False) corner_path (1 / 2) 0 empty_vertexData
        = Inr (st', Some lastPoint)
    \<and> pl_array corner_path 1 = Some corner_sample \<and> pt_sharp corner_sample
    \<and> \<not> pt_sharp lastPoint
    \<and> length (vd_position st') = 12"
proof -
  let ?addV = "path_addVertices ''both'' 0.05 0.1 2 False"
  let ?p0 = "frame_x (Vector3 0 0 0) 0"
  let ?lp = "lerpPathPoints new_PathPoint ?p0 corner_sample
               ((1 / 2 - pt_dist ?p0) / (pt_dist corner_sample - pt_dist ?p0))"
  have 1: "progress_loop ?addV corner_path (1 / 2) 1 (?addV ?p0 empty_vertexData)
      = Inr (?addV ?lp (?addV ?p0 empty_vertexData), Some ?lp)"
    by (subst progress_loop.simps)
       (simp add: corner_path_simps corner_sample_simps frame_x_simps Let_def)
  have 0: "progress_loop ?addV corner_path (1 / 2) 0 empty_vertexData
      = Inr (?addV ?lp (?addV ?p0 empty_vertexData), Some ?lp)"
    by (subst progress_loop.simps)
       (use 1 in \<open>simp add: corner_path_simps corner_sample_simps frame_x_simps\<close>)
  from ribbon_truncation_plain[OF 0] have n: "\<not> pt_sharp ?lp" by simp
  have "length (vd_position (?addV ?lp (?addV ?p0 empty_vertexData))) = 12"
    using n by (simp add: path_addVertices_proj empty_vertexData_simps)
  then show ?thesis using 0 n corner_path_simps(3) corner_sample_simps(2) by blast
qed

section \<open>Progress outside the open unit interval\<close>

text \<open>
  Claim C10, amended. With a negative progress and a positive total distance, the circular
  tube emitter and both rectangular tube emitters skip the walk (it is guarded by
  \<open>progressDistance > 0\<close>), read no sample and return an object with empty arrays and count 0.
  For every progress, on a list without holes whose first sample has \<open>dist\<close> 0, as
  \<open>set\<close> builds it, these emitters do not throw: the previous sample read in the truncation
  branch exists.
\<close>

theorem tube_progress_guard:
  "(distance l = Inr td \<and> 0 < td \<and> opt_progress opts = Some progress \<and> progress < 0 \<longrightarrow>
       generateTubeVertexData l opts generateUv2 = Inr (Some empty_vertexData)
     \<and> generateRectVertexData5 l opts generateUv2 = Inr (Some empty_vertexData)
     \<and> generateRectVertexData8 l opts generateUv2 = Inr (Some empty_vertexData))
   \<and> (no_holes l \<and> (\<forall>p. pl_array l 0 = Some p \<longrightarrow> pt_dist p = 0) \<longrightarrow>
       generateTubeVertexData l opts generateUv2 \<noteq> Inl e
     \<and> generateRectVertexData5 l opts generateUv2 \<noteq> Inl e
     \<and> generateRectVertexData8 l opts generateUv2 \<noteq> Inl e)"
proof (intro conjI impI)
  assume a: "distance l = Inr td \<and> 0 < td \<and> opt_progress opts = Some progress \<and> progress < 0"
  then have neg: "progress * td < 0" by (simp add: mult_neg_pos)
  have p: "if_defined (opt_progress opts) 1 = progress" using a by (simp add: if_defined_def)
  show "generateTubeVertexData l opts generateUv2 = Inr (Some empty_vertexData)"
    using a neg by (simp add: generateTubeVertexData_unfold if_defined_def)
  show "generateRectVertexData5 l opts generateUv2 = Inr (Some empty_vertexData)"
    using a neg by (simp add: generateRectVertexData5_unfold if_defined_def)
  show "generateRectVertexData8 l opts generateUv2 = Inr (Some empty_vertexData)"
    using a neg by (simp add: generateRectVertexData8_unfold if_defined_def rect8_finish_empty)
next
  assume b: "no_holes l \<and> (\<forall>p. pl_array l 0 = Some p \<longrightarrow> pt_dist p = 0)"
  have loop: "0 < pd \<Longrightarrow> progress_loop addV l pd 0 st \<noteq> Inl e"
    for pd and addV :: "PathPoint \<Rightarrow> vertexData \<Rightarrow> vertexData" and st
    using b by (intro progress_loop_no_error) auto
  obtain td where td: "distance l = Inr td"
    using distance_no_error[of l] b by (cases "distance l") auto
  show "generateTubeVertexData l opts generateUv2 \<noteq> Inl e"
    using loop by (auto simp: generateTubeVertexData_unfold td split: sum.splits)
  show "generateRectVertexData5 l opts generateUv2 \<noteq> Inl e"
    using loop by (auto simp: generateRectVertexData5_unfold td split: sum.splits)
  show "generateRectVertexData8 l opts generateUv2 \<noteq> Inl e"
    using loop by (auto simp: generateRectVertexData8_unfold td split: sum.splits)
qed

theorem tube_progress_guard_witness:
  "generateRectVertexData5 straight_path (no_options \<lparr> opt_progress := Some (- 1) \<rparr>) False
     = Inr (Some empty_vertexData)
   \<and> generateRectVertexData8 straight_path (no_options \<lparr> opt_progress := Some (- 1) \<rparr>) False
     = Inr (Some empty_vertexData)
   \<and> generateTubeVertexData straight_path (no_options \<lparr> opt_progress := Some (1 / 2) \<rparr>) False
     \<noteq> Inl TypeError"
  using tube_progress_guard[of straight_path 10 "no_options \<lparr> opt_progress := Some (- 1) \<rparr>" "- 1"
          False TypeError]
    tube_progress_guard[of straight_path 10 "no_options \<lparr> opt_progress := Some (1 / 2) \<rparr>" "- 1"
          False TypeError]
    distance_straight no_holes_straight
  by (simp add: straight_path_simps frame_x_simps no_options_def)

theorem tube_negative_progress_counterexample:
  "generateTubeVertexData straight_path (no_options \<lparr> opt_progress := Some (- 1) \<rparr>) False
     = Inr (Some empty_vertexData)
   \<and> pl_array straight_path (- 1) = None"
  by (simp add: generateTubeVertexData_unfold distance_straight if_defined_def no_options_def
      straight_path_simps)

text \<open>
  Claim C2, amended. With progress 0 the circular tube emitter and both rectangular tube
  emitters return \<open>null\<close>. The ribbon emitter walks no sample; it returns \<open>null\<close> when the
  total distance is 0, an object with empty arrays and count 0 when \<open>arrow\<close> is false, and,
  when \<open>arrow\<close> is true (the default), the arrow head at the first sample: three vertices,
  the three indices 2, 0, 1 and count 3.
\<close>

theorem zero_progress:
  "opt_progress opts = Some 0 \<and> distance l = Inr td \<longrightarrow>
      generateTubeVertexData l opts generateUv2 = Inr None
    \<and> generateRectVertexData5 l opts generateUv2 = Inr None
    \<and> generateRectVertexData8 l opts generateUv2 = Inr None
    \<and> (td = 0 \<longrightarrow> generatePathVertexData l opts generateUv2 = Inr None)
    \<and> (td \<noteq> 0 \<and> \<not> if_defined (opt_arrow opts) True \<longrightarrow>
          generatePathVertexData l opts generateUv2 = Inr (Some empty_vertexData))
    \<and> (td \<noteq> 0 \<and> if_defined (opt_arrow opts) True \<and> pl_array l 0 = Some p \<longrightarrow>
          generatePathVertexData l opts generateUv2
            = Inr (Some (path_arrow opts td generateUv2 p empty_vertexData))
        \<and> length (vd_position (path_arrow opts td generateUv2 p empty_vertexData)) = 9
        \<and> vd_indices (path_arrow opts td generateUv2 p empty_vertexData) = [2, 0, 1]
        \<and> vd_count (path_arrow opts td generateUv2 p empty_vertexData) = 3)"
  by (simp add: generateTubeVertexData_unfold generateRectVertexData5_unfold
      generateRectVertexData8_unfold generatePathVertexData_unfold if_defined_def
      path_arrow_def path_addStart_def Let_def xyz_def empty_vertexData_def)

theorem zero_progress_witness:
  "generateTubeVertexData straight_path (no_options \<lparr> opt_progress := Some 0 \<rparr>) False = Inr None
   \<and> generatePathVertexData straight_path
        (no_options \<lparr> opt_progress := Some 0, opt_arrow := Some False \<rparr>) False
     = Inr (Some empty_vertexData)
   \<and> vd_count (path_arrow (no_options \<lparr> opt_progress := Some 0 \<rparr>) 10 False
                  (frame_x (Vector3 0 0 0) 0) empty_vertexData) = 3"
  using zero_progress[of "no_options \<lparr> opt_progress := Some 0 \<rparr>" straight_path 10 False
          "frame_x (Vector3 0 0 0) 0"]
    zero_progress[of "no_options \<lparr> opt_progress := Some 0, opt_arrow := Some False \<rparr>" straight_path 10
          False "frame_x (Vector3 0 0 0) 0"]
    distance_straight
  by (simp add: straight_path_simps no_options_def if_defined_def)

theorem zero_progress_arrow_counterexample:
  "emitted_vertices (generatePathVertexData straight_path (no_options \<lparr> opt_progress := Some 0 \<rparr>) False)
     = Some 3"
  by (simp add: generatePathVertexData_unfold distance_straight straight_path_simps no_options_def
      if_defined_def emitted_vertices_def path_arrow_def path_addStart_proj empty_vertexData_simps)

section \<open>Updating a geometry\<close>

lemma resizeAttribute_enough: "len \<le> length a \<Longrightarrow> resizeAttribute a len = Some a"
  by (subst resizeAttribute.simps) simp

lemma resizeAttribute_terminates:
  "0 < length a \<Longrightarrow> \<exists>a'. resizeAttribute a len = Some a' \<and> len \<le> length a'"
proof (induction "len - length a" arbitrary: a rule: less_induct)
  case less
  show ?case
  proof (cases "length a < len")
    case False
    then show ?thesis by (simp add: resizeAttribute_enough)
  next
    case True
    have "len - length a * 2 < len - length a" using True less.prems by linarith
    then have "len - length (replicate (length a * 2) (0::real)) < len - length a"
      by (simp only: length_replicate)
    then have "\<exists>a'. resizeAttribute (replicate (length a * 2) 0) len = Some a' \<and> len \<le> length a'"
      by (rule less.hyps) (use less.prems in simp)
    then show ?thesis using True by (subst resizeAttribute.simps) simp
  qed
qed

lemma resizeIndex_terminates:
  "0 < index_length a \<Longrightarrow> \<exists>a'. resizeIndex a len = Some a' \<and> len \<le> index_length a'"
proof (induction "len - index_length a" arbitrary: a rule: less_induct)
  case less
  show ?case
  proof (cases "index_length a < len")
    case False
    then show ?thesis by (subst resizeIndex.simps) simp
  next
    case True
    let ?n = "(if index_length a * 2 > 65535 then Uint32Array (replicate (index_length a * 2) 0)
               else Uint16Array (replicate (index_length a * 2) 0))"
    have "index_length ?n = index_length a * 2" by simp
    moreover have "len - index_length a * 2 < len - index_length a" using True less.prems by linarith
    ultimately have "len - index_length ?n < len - index_length a"
      by (simp only:)
    then have "\<exists>a'. resizeIndex ?n len = Some a' \<and> len \<le> index_length a'"
      by (rule less.hyps) (use less.prems in simp)
    then show ?thesis using True by (subst resizeIndex.simps) (simp add: Let_def)
  qed
qed

lemma resize_and_set_ok:
  "0 < length a \<Longrightarrow> \<exists>a'. resize_and_set a src = Some (Inr a')"
proof -
  assume "0 < length a"
  from resizeAttribute_terminates[OF this, of "length src"]
  obtain a' where "resizeAttribute a (length src) = Some a'" "length src \<le> length a'" by blast
  then show ?thesis by (simp add: resize_and_set_def array_set_def)
qed

lemma index_set_ok:
  "length src \<le> index_length a \<Longrightarrow> \<exists>a'. index_set a src = Inr a'"
  by (cases a) (auto simp: array_set_def)

lemma updateAttributes_ok:
  assumes "buffers_nonempty g" "uv2 \<noteq> None \<longrightarrow> attr_uv2 g \<noteq> None"
  shows "\<exists>g'. updateAttributes g position normal uv uv2 indices = Some (Inr g')"
proof -
  from assms(1) obtain p n u where
    p: "resize_and_set (attr_position g) position = Some (Inr p)" and
    n: "resize_and_set (attr_normal g) normal = Some (Inr n)" and
    u: "resize_and_set (attr_uv g) uv = Some (Inr u)"
    unfolding buffers_nonempty_def
    using resize_and_set_ok[of "attr_position g" position] resize_and_set_ok[of "attr_normal g" normal]
      resize_and_set_ok[of "attr_uv g" uv] by blast
  have "\<exists>u2'. (case uv2 of
              None \<Rightarrow> Some (Inr (attr_uv2 g))
            | Some source \<Rightarrow>
                (case attr_uv2 g of
                   None \<Rightarrow> Some (Inl TypeError)
                 | Some a \<Rightarrow> map_option (map_sum id Some) (resize_and_set a source))) = Some (Inr u2')"
  proof (cases uv2)
    case None
    then show ?thesis by simp
  next
    case (Some source)
    then obtain a where a: "attr_uv2 g = Some a" using assms(2) by auto
    then have "0 < length a" using assms(1) by (simp add: buffers_nonempty_def)
    from resize_and_set_ok[OF this, of source] show ?thesis using Some a by auto
  qed
  then obtain u2' where u2: "(case uv2 of
              None \<Rightarrow> Some (Inr (attr_uv2 g))
            | Some source \<Rightarrow>
                (case attr_uv2 g of
                   None \<Rightarrow> Some (Inl TypeError)
                 | Some a \<Rightarrow> map_option (map_sum id Some) (resize_and_set a source))) = Some (Inr u2')"
    by blast
  from assms(1) resizeIndex_terminates[of "attr_index g" "length indices"]
  obtain ix where ix: "resizeIndex (attr_index g) (length indices) = Some ix"
    "length indices \<le> index_length ix" by (auto simp: buffers_nonempty_def)
  from index_set_ok[OF ix(2)] obtain ix' where ix': "index_set ix indices = Inr ix'" by blast
  show ?thesis unfolding updateAttributes_def by (simp add: p n u u2 ix(1) ix')
qed

lemma update_with_count:
  "update_with generate g l opts = Some (Inr g') \<Longrightarrow>
     \<exists>r. generate l opts (attr_uv2 g \<noteq> None) = Inr r \<and> drawRange_count g' = returned_count r"
  by (auto simp: update_with_def Let_def returned_count_def split: sum.splits option.splits)

lemma update_with_ok:
  assumes "buffers_nonempty g" "generate l opts (attr_uv2 g \<noteq> None) = Inr r"
  shows "\<exists>g'. update_with generate g l opts = Some (Inr g') \<and> drawRange_count g' = returned_count r"
proof (cases r)
  case None
  then show ?thesis using assms(2) by (simp add: update_with_def returned_count_def)
next
  case (Some vd)
  have "\<exists>g'. updateAttributes g (vd_position vd) (vd_normal vd) (vd_uv vd)
           (if attr_uv2 g \<noteq> None then Some (vd_uv2 vd) else None) (vd_indices vd) = Some (Inr g')"
    by (rule updateAttributes_ok[OF assms(1)]) simp
  then obtain g1 where "updateAttributes g (vd_position vd) (vd_normal vd) (vd_uv vd)
           (if attr_uv2 g \<noteq> None then Some (vd_uv2 vd) else None) (vd_indices vd) = Some (Inr g1)"
    by blast
  then show ?thesis using assms(2) Some
    by (simp add: update_with_def returned_count_def Let_def)
qed

lemma path_count_indices:
  assumes "generatePathVertexData l opts u2 = Inr (Some vd)"
  shows "vd_count vd = int (length (vd_indices vd))"
proof -
  let ?I = "\<lambda>s. vd_count s = int (length (vd_indices s))"
  have e: "?I empty_vertexData" by (simp add: empty_vertexData_def)
  have loop: "progress_loop (path_add opts td u2) l pd 0 empty_vertexData = Inr (st, lp) \<Longrightarrow> ?I st"
    for td pd st lp
    unfolding path_add_def
    by (rule progress_loop_invariant[where I = ?I, OF _ e]) (auto intro: path_addVertices_count)
  have arrow: "?I st \<Longrightarrow> ?I (path_arrow opts td u2 p st)" for td p st
    unfolding path_arrow_def by (rule path_addStart_count)
  show ?thesis
    using assms e loop arrow
    by (auto simp: generatePathVertexData_unfold split: sum.splits if_splits option.splits prod.splits)
qed

lemma tube_count_indices:
  assumes "generateTubeVertexData l opts u2 = Inr (Some vd)"
  shows "vd_count vd = int (length (vd_indices vd))"
proof -
  let ?I = "\<lambda>s. vd_count s = int (length (vd_indices s))"
  have e: "?I empty_vertexData" by (simp add: empty_vertexData_def)
  have loop: "progress_loop (tube_add opts td u2) l pd 0 empty_vertexData = Inr (st, lp) \<Longrightarrow> ?I st"
    for td pd st lp
    unfolding tube_add_def
    by (rule progress_loop_invariant[where I = ?I, OF _ e]) (auto intro: tube_addVertices_count)
  show ?thesis
    using assms e loop
    by (auto simp: generateTubeVertexData_unfold split: sum.splits if_splits prod.splits)
qed

lemma rect5_count_indices:
  assumes "generateRectVertexData5 l opts u2 = Inr (Some vd)"
  shows "vd_count vd = int (length (vd_indices vd))"
proof -
  let ?I = "\<lambda>s. vd_count s = int (length (vd_indices s))"
  have e: "?I empty_vertexData" by (simp add: empty_vertexData_def)
  have loop: "progress_loop (rect5_add opts td u2) l pd 0 empty_vertexData = Inr (st, lp) \<Longrightarrow> ?I st"
    for td pd st lp
    unfolding rect5_add_def
    by (rule progress_loop_invariant[where I = ?I, OF _ e]) (auto intro: rect5_addVertices_count)
  show ?thesis
    using assms e loop
    by (auto simp: generateRectVertexData5_unfold split: sum.splits if_splits prod.splits)
qed

lemma rect8_count_vertices:
  assumes "generateRectVertexData8 l opts u2 = Inr (Some vd)"
  shows "int (length (vd_position vd)) = 3 * vd_count vd"
proof -
  let ?I = "\<lambda>s. int (length (vd_position s)) = 3 * vd_count s"
  have e: "?I empty_vertexData" by (simp add: empty_vertexData_def)
  have loop: "progress_loop (rect8_add opts td) l pd 0 empty_vertexData = Inr (st, lp) \<Longrightarrow> ?I st"
    for td pd st lp
    unfolding rect8_add_def
    by (rule progress_loop_invariant[where I = ?I, OF _ e]) (auto intro: rect8_addVertices_count)
  have fin: "?I st \<Longrightarrow> ?I (rect8_finish st)" for st by (simp add: rect8_finish_def Let_def)
  show ?thesis
    using assms e loop fin
    by (auto simp: generateRectVertexData8_unfold split: sum.splits if_splits prod.splits)
qed

lemma buffers_nonempty_init: "0 < n \<Longrightarrow> buffers_nonempty (initByMaxVertex n u2)"
  by (simp add: buffers_nonempty_def initByMaxVertex_def)

text \<open>
  Claim C1, amended. After an update that returns normally, \<open>drawRange.count\<close> is the
  \<open>count\<close> the emitter returned, and 0 when the emitter returned \<open>null\<close>. For the ribbon,
  the circular tube and the 5-vertex rectangular tube that \<open>count\<close> is the number of
  indices emitted; for the 8-vertex rectangular tube it is the number of vertices emitted.
\<close>

theorem update_drawRange_count:
  "(PathGeometry_update g l opts = Some (Inr g') \<longrightarrow>
      (\<exists>r. generatePathVertexData l opts (attr_uv2 g \<noteq> None) = Inr r
         \<and> drawRange_count g' = returned_count r
         \<and> (\<forall>vd. r = Some vd \<longrightarrow> vd_count vd = int (length (vd_indices vd)))))
   \<and> (PathTubeGeometry_update g l opts = Some (Inr g') \<longrightarrow>
      (\<exists>r. generateTubeVertexData l opts (attr_uv2 g \<noteq> None) = Inr r
         \<and> drawRange_count g' = returned_count r
         \<and> (\<forall>vd. r = Some vd \<longrightarrow> vd_count vd = int (length (vd_indices vd)))))
   \<and> (PathRectangleGeometry5_update g l opts = Some (Inr g') \<longrightarrow>
      (\<exists>r. generateRectVertexData5 l opts (attr_uv2 g \<noteq> None) = Inr r
         \<and> drawRange_count g' = returned_count r
         \<and> (\<forall>vd. r = Some vd \<longrightarrow> vd_count vd = int (length (vd_indices vd)))))
   \<and> (PathRectangleGeometry8_update g l opts = Some (Inr g') \<longrightarrow>
      (\<exists>r. generateRectVertexData8 l opts (attr_uv2 g \<noteq> None) = Inr r
         \<and> drawRange_count g' = returned_count r
         \<and> (\<forall>vd. r = Some vd \<longrightarrow> int (length (vd_position vd)) = 3 * vd_count vd)))"
proof (intro conjI impI)
  assume "PathGeometry_update g l opts = Some (Inr g')"
  then show "\<exists>r. generatePathVertexData l opts (attr_uv2 g \<noteq> None) = Inr r
         \<and> drawRange_count g' = returned_count r
         \<and> (\<forall>vd. r = Some vd \<longrightarrow> vd_count vd = int (length (vd_indices vd)))"
    unfolding PathGeometry_update_def
    using update_with_count[of generatePathVertexData g l opts g'] path_count_indices by blast
next
  assume "PathTubeGeometry_update g l opts = Some (Inr g')"
  then show "\<exists>r. generateTubeVertexData l opts (attr_uv2 g \<noteq> None) = Inr r
         \<and> drawRange_count g' = returned_count r
         \<and> (\<forall>vd. r = Some vd \<longrightarrow> vd_count vd = int (length (vd_indices vd)))"
    unfolding PathTubeGeometry_update_def
    using update_with_count[of generateTubeVertexData g l opts g'] tube_count_indices by blast
next
  assume "PathRectangleGeometry5_update g l opts = Some (Inr g')"
  then show "\<exists>r. generateRectVertexData5 l opts (attr_uv2 g \<noteq> None) = Inr r
         \<and> drawRange_count g' = returned_count r
         \<and> (\<forall>vd. r = Some vd \<longrightarrow> vd_count vd = int (length (vd_indices vd)))"
    unfolding PathRectangleGeometry5_update_def
    using update_with_count[of generateRectVertexData5 g l opts g'] rect5_count_indices by blast
next
  assume "PathRectangleGeometry8_update g l opts = Some (Inr g')"
  then show "\<exists>r. generateRectVertexData8 l opts (attr_uv2 g \<noteq> None) = Inr r
         \<and> drawRange_count g' = returned_count r
         \<and> (\<forall>vd. r = Some vd \<longrightarrow> int (length (vd_position vd)) = 3 * vd_count vd)"
    unfolding PathRectangleGeometry8_update_def
    using update_with_count[of generateRectVertexData8 g l opts g'] rect8_count_vertices by blast
qed

theorem update_drawRange_count_witness:
  "\<exists>g'. PathGeometry_update (initByMaxVertex 3000 False) straight_path no_options = Some (Inr g')
     \<and> drawRange_count g' = 9"
proof -
  have u2: "attr_uv2 (initByMaxVertex 3000 False) = None" by (simp add: initByMaxVertex_def)
  have gen: "generatePathVertexData straight_path no_options
               (attr_uv2 (initByMaxVertex 3000 False) \<noteq> None)
      = Inr (Some (path_arrow no_options 10 False (frame_x (Vector3 10 0 0) 10)
                    (path_add no_options 10 False (frame_x (Vector3 10 0 0) 10)
                       (path_add no_options 10 False (frame_x (Vector3 0 0 0) 0) empty_vertexData))))"
    by (simp add: u2 path_straight_default)
  have b: "buffers_nonempty (initByMaxVertex 3000 False)" by (simp add: buffers_nonempty_init)
  from update_with_ok[of "initByMaxVertex 3000 False" generatePathVertexData, OF b gen]
  obtain g' where g': "PathGeometry_update (initByMaxVertex 3000 False) straight_path no_options
      = Some (Inr g')"
    by (auto simp: PathGeometry_update_def)
  from update_drawRange_count[of "initByMaxVertex 3000 False" straight_path no_options g'] g' gen
  have "drawRange_count g' = 9"
    by (simp add: returned_count_def path_straight_default_counts)
  then show ?thesis using g' by blast
qed

theorem update_count_not_vertices_counterexample:
  "count_after (PathGeometry_update (initByMaxVertex 3000 False) straight_path no_options) = Some 9
   \<and> emitted_vertices (generatePathVertexData straight_path no_options False) = Some 7"
proof -
  have u2: "attr_uv2 (initByMaxVertex 3000 False) = None" by (simp add: initByMaxVertex_def)
  have gen: "generatePathVertexData straight_path no_options
               (attr_uv2 (initByMaxVertex 3000 False) \<noteq> None)
      = Inr (Some (path_arrow no_options 10 False (frame_x (Vector3 10 0 0) 10)
                    (path_add no_options 10 False (frame_x (Vector3 10 0 0) 10)
                       (path_add no_options 10 False (frame_x (Vector3 0 0 0) 0) empty_vertexData))))"
    by (simp add: u2 path_straight_default)
  have b: "buffers_nonempty (initByMaxVertex 3000 False)" by (simp add: buffers_nonempty_init)
  from update_with_ok[of "initByMaxVertex 3000 False" generatePathVertexData, OF b gen]
  have "count_after (PathGeometry_update (initByMaxVertex 3000 False) straight_path no_options) = Some 9"
    by (auto simp: PathGeometry_update_def count_after_def returned_count_def
        path_straight_default_counts)
  moreover have "emitted_vertices (generatePathVertexData straight_path no_options False) = Some 7"
    by (simp add: path_straight_default emitted_vertices_def path_straight_default_counts)
  ultimately show ?thesis by blast
qed

section \<open>Orthonormal frames\<close>











lemma normalize_factor: "normalize v = multiplyScalar v (norm_factor v)"
  by (simp add: normalize_def norm_factor_def)

lemma norm_factor_pos: "0 < norm_factor v"
  using vlength_nonneg[of v] by (simp add: norm_factor_def less_le)



lemma normalize_zero_iff: "normalize v = Vector3 0 0 0 \<longleftrightarrow> v = Vector3 0 0 0"
proof (cases v)
  case (Vector3 a b c)
  have "norm_factor v \<noteq> 0" using norm_factor_pos[of v] by simp
  then show ?thesis unfolding normalize_factor using Vector3 by (simp add: multiplyScalar_def)
qed


lemma cross_zero: "crossVectors a (Vector3 0 0 0) = Vector3 0 0 0" "crossVectors (Vector3 0 0 0) a = Vector3 0 0 0"
  by (simp_all add: crossVectors_def)
































lemma same_frame_nondegenerate: "same_frame p q \<Longrightarrow> nondegenerate p \<Longrightarrow> nondegenerate q"
  by (simp add: same_frame_def nondegenerate_def)

subsection \<open>The test on the forced up vector\<close>

text \<open>
  When the tangent at a corner is the forced up vector and the test \<open>=== 1\<close> misses, the
  right and up vectors stored are zero. This is what the source stores for the key points
  (0, 0, 0), (1, 0, 5), (0, 0, 10) and the up vector (0, 0, 1); when the test succeeds, the
  frame stored there is orthonormal.
\<close>

lemma cross_self: "crossVectors a a = Vector3 0 0 0"
  by (simp add: crossVectors_def)

lemma forced_up_test_missed:
  assumes "pt_dir (sharpCorner_point same q lp cur nxt (Some up) dt sh) = up"
    and "\<not> same (dot up up) 1"
  shows "pt_right (sharpCorner_point same q lp cur nxt (Some up) dt sh) = Vector3 0 0 0"
    and "pt_up (sharpCorner_point same q lp cur nxt (Some up) dt sh) = Vector3 0 0 0"
proof -
  let ?p = "sharpCorner_point same q lp cur nxt (Some up) dt sh"
  have r: "pt_right ?p = (if same (dot (pt_dir ?p) up) 1
                          then normalize (crossVectors (normalize (subVectors nxt cur)) up)
                          else normalize (crossVectors (pt_dir ?p) up))"
    by (simp add: sharpCorner_point_def Let_def)
  have u: "pt_up ?p = normalize (crossVectors (pt_right ?p) (pt_dir ?p))"
    by (simp add: sharpCorner_point_def Let_def)
  show "pt_right ?p = Vector3 0 0 0"
    unfolding r assms(1) using assms(2) by (simp add: cross_self normalize_zero_iff)
  then show "pt_up ?p = Vector3 0 0 0"
    unfolding u by (simp add: cross_zero normalize_zero_iff)
qed

lemma normalize_axis:
  "0 < z \<Longrightarrow> normalize (Vector3 0 0 z) = Vector3 0 0 1"
  "0 < z \<Longrightarrow> normalize (Vector3 0 z 0) = Vector3 0 1 0"
  by (simp_all add: normalize_def vlength_def multiplyScalar_def)

lemma normalize_1_0_5:
  "normalize (Vector3 1 0 5) = Vector3 (1 / sqrt 26) 0 (5 / sqrt 26)"
  "normalize (Vector3 (- 1) 0 5) = Vector3 (- (1 / sqrt 26)) 0 (5 / sqrt 26)"
  by (simp_all add: normalize_def vlength_def dot_def multiplyScalar_def)

lemma forced_up_parallel_corner:
  assumes "pt_pos lp = Vector3 0 0 0"
  shows "pt_dir (sharpCorner_point same q lp (Vector3 1 0 5) (Vector3 0 0 10) (Some (Vector3 0 0 1)) 0 sh)
           = Vector3 0 0 1"
proof -
  have "normalize (Vector3 0 0 (10 / sqrt 26)) = Vector3 0 0 1"
    by (rule normalize_axis) simp
  then show ?thesis
    by (simp add: sharpCorner_point_def Let_def assms vec_eval normalize_1_0_5)
qed

lemma sharpCorner_forced_up_missed:
  assumes "pt_pos lp = Vector3 0 0 0"
  shows "pt_right (sharpCorner_point (\<lambda>x y. False) q lp (Vector3 1 0 5) (Vector3 0 0 10)
           (Some (Vector3 0 0 1)) 0 sh) = Vector3 0 0 0"
    and "pt_up (sharpCorner_point (\<lambda>x y. False) q lp (Vector3 1 0 5) (Vector3 0 0 10)
           (Some (Vector3 0 0 1)) 0 sh) = Vector3 0 0 0"
  using forced_up_test_missed[OF forced_up_parallel_corner[OF assms]] by simp_all

lemma sharpCorner_forced_up_hit:
  assumes "pt_pos lp = Vector3 0 0 0"
  shows "pt_right (sharpCorner_point (=) q lp (Vector3 1 0 5) (Vector3 0 0 10)
           (Some (Vector3 0 0 1)) 0 sh) = Vector3 0 1 0"
    and "pt_up (sharpCorner_point (=) q lp (Vector3 1 0 5) (Vector3 0 0 10)
           (Some (Vector3 0 0 1)) 0 sh) = Vector3 1 0 0"
proof -
  let ?p = "sharpCorner_point (=) q lp (Vector3 1 0 5) (Vector3 0 0 10) (Some (Vector3 0 0 1)) 0 sh"
  have d: "pt_dir ?p = Vector3 0 0 1" using assms by (rule forced_up_parallel_corner)
  have r: "pt_right ?p = (if dot (pt_dir ?p) (Vector3 0 0 1) = 1
                          then normalize (crossVectors (normalize (subVectors (Vector3 0 0 10) (Vector3 1 0 5)))
                                 (Vector3 0 0 1))
                          else normalize (crossVectors (pt_dir ?p) (Vector3 0 0 1)))"
    by (simp add: sharpCorner_point_def Let_def)
  have u: "pt_up ?p = normalize (crossVectors (pt_right ?p) (pt_dir ?p))"
    by (simp add: sharpCorner_point_def Let_def)
  have "normalize (Vector3 0 (1 / sqrt 26) 0) = Vector3 0 1 0"
    by (rule normalize_axis) simp
  then show "pt_right ?p = Vector3 0 1 0"
    unfolding r d by (simp add: vec_eval normalize_1_0_5)
  then show "pt_up ?p = Vector3 1 0 0"
    unfolding u d by (simp add: vec_eval normalize_def vlength_def)
qed




subsection \<open>The frames of a sequence\<close>




end
